theory Spec2Isabelle
  imports Complex_Main
begin

text \<open>
  The option compiler of youtube-dlg (\<open>src/youtube_dl_gui/parsers.py\<close>: the classes
  \<open>OptionHolder\<close> and \<open>OptionsParser\<close>) and the download item its tests describe
  (\<open>src/tests/test_ditem.py\<close>), embedded in HOL, with the properties the
  specification states about them.
\<close>

section \<open>Python values and dictionaries\<close>

text \<open>
  The options dictionary of youtube-dlg maps option names to untyped Python values.
  The values that \<open>parsers.py\<close> compares, tests for truth and formats are
  \<open>None\<close>, booleans, integers and strings.
\<close>

datatype pyval = PNone | PBool bool | PInt int | PStr string

type_synonym dict = "string \<rightharpoonup> pyval"

text \<open>Python's \<open>==\<close>: \<open>bool\<close> is a subclass of \<open>int\<close>, so \<open>True == 1\<close> and \<open>False == 0\<close>.\<close>

fun py_eq :: "pyval \<Rightarrow> pyval \<Rightarrow> bool" where
  "py_eq PNone PNone = True"
| "py_eq (PBool a) (PBool b) = (a = b)"
| "py_eq (PBool a) (PInt i) = ((if a then 1 else 0) = i)"
| "py_eq (PInt i) (PBool b) = (i = (if b then 1 else 0))"
| "py_eq (PInt i) (PInt j) = (i = j)"
| "py_eq (PStr s) (PStr t) = (s = t)"
| "py_eq _ _ = False"

text \<open>Python's truth value of an object, as \<open>if x:\<close> and \<open>any\<close> take it.\<close>

fun truthy :: "pyval \<Rightarrow> bool" where
  "truthy PNone = False"
| "truthy (PBool b) = b"
| "truthy (PInt i) = (i \<noteq> 0)"
| "truthy (PStr s) = (s \<noteq> [])"

datatype error = KeyError string | TypeError | AttributeError

text \<open>\<open>d[k]\<close>: a missing key raises \<open>KeyError\<close>.\<close>

definition getitem :: "dict \<Rightarrow> string \<Rightarrow> error + pyval" where
  "getitem d k = (case d k of None \<Rightarrow> Inl (KeyError k) | Some v \<Rightarrow> Inr v)"

text \<open>
  \<open>os.path.join(a, b)\<close> of \<open>posixpath\<close>: an absolute second component replaces the
  first, otherwise the two are joined with exactly one separator.
\<close>

definition path_join :: "string \<Rightarrow> string \<Rightarrow> string" where
  "path_join a b =
     (if b \<noteq> [] \<and> hd b = CHR ''/'' then b
      else if a = [] \<or> last a = CHR ''/'' then a @ b
      else a @ ''/'' @ b)"

text \<open>
  \<open>s.split()\<close> with no argument: the maximal runs of non-whitespace characters, in
  order. The whitespace characters are those of a byte string.
\<close>

definition is_space :: "char \<Rightarrow> bool" where
  "is_space c = (c = CHR '' '' \<or> c = CHR 0x09 \<or> c = CHR 0x0A \<or> c = CHR 0x0B
                 \<or> c = CHR 0x0C \<or> c = CHR 0x0D)"

fun split_words :: "string \<Rightarrow> string \<Rightarrow> string list" where
  "split_words w [] = (if w = [] then [] else [w])"
| "split_words w (c # cs) =
     (if is_space c then (if w = [] then split_words [] cs else w # split_words [] cs)
      else split_words (w @ [c]) cs)"

definition py_split :: "string \<Rightarrow> string list" where
  "py_split s = split_words [] s"

section \<open>The helpers imported from \<open>utils\<close>\<close>

text \<open>
  \<open>parsers.py\<close> imports \<open>remove_shortcuts\<close> and \<open>to_string\<close> from \<open>.utils\<close>; the
  \<open>Utils.py\<close> of the sources defines neither. Both are parameters of the model: every
  theorem about \<open>parse\<close> holds for whatever the two functions compute.
\<close>

record utils =
  remove_shortcuts :: "string \<Rightarrow> string"
  to_string :: "pyval \<Rightarrow> string"

section \<open>\<open>OptionHolder\<close>\<close>

record OptionHolder =
  name :: string
  flag :: string
  default_value :: pyval
  requirements :: "string list option"

definition mk_option :: "string \<Rightarrow> string \<Rightarrow> pyval \<Rightarrow> OptionHolder" where
  "mk_option n f dv = \<lparr>name = n, flag = f, default_value = dv, requirements = None\<rparr>"

definition mk_option_req :: "string \<Rightarrow> string \<Rightarrow> pyval \<Rightarrow> string list \<Rightarrow> OptionHolder" where
  "mk_option_req n f dv reqs =
     \<lparr>name = n, flag = f, default_value = dv, requirements = Some reqs\<rparr>"

text \<open>\<open>type(self.default_value) is bool\<close>\<close>

definition is_boolean :: "OptionHolder \<Rightarrow> bool" where
  "is_boolean opt = (case default_value opt of PBool _ \<Rightarrow> True | _ \<Rightarrow> False)"

text \<open>
  The list comprehension \<open>[options_dict[req] for req in self.requirements]\<close> looks
  every requirement up, left to right, before \<open>any\<close> sees the first value.
\<close>

fun lookup_all :: "dict \<Rightarrow> string list \<Rightarrow> error + pyval list" where
  "lookup_all d [] = Inr []"
| "lookup_all d (r # rs) =
     (case getitem d r of
        Inl e \<Rightarrow> Inl e
      | Inr v \<Rightarrow> (case lookup_all d rs of Inl e \<Rightarrow> Inl e | Inr vs \<Rightarrow> Inr (v # vs)))"

definition check_requirements :: "OptionHolder \<Rightarrow> dict \<Rightarrow> error + bool" where
  "check_requirements opt options_dict =
     (case requirements opt of
        None \<Rightarrow> Inr True
      | Some reqs \<Rightarrow>
          (case lookup_all options_dict reqs of
             Inl e \<Rightarrow> Inl e
           | Inr vs \<Rightarrow> Inr (list_ex truthy vs)))"

section \<open>\<open>OptionsParser\<close>\<close>

text \<open>\<open>self._ydl_options\<close>, as \<open>__init__\<close> builds it.\<close>

definition ydl_options :: "OptionHolder list" where
  "ydl_options =
    [mk_option ''playlist_start'' ''--playlist-start'' (PInt 1),
     mk_option ''playlist_end'' ''--playlist-end'' (PInt 0),
     mk_option ''max_downloads'' ''--max-downloads'' (PInt 0),
     mk_option ''username'' ''-u'' (PStr ''''),
     mk_option ''password'' ''-p'' (PStr ''''),
     mk_option ''video_password'' ''--video-password'' (PStr ''''),
     mk_option ''retries'' ''-R'' (PInt 10),
     mk_option ''proxy'' ''--proxy'' (PStr ''''),
     mk_option ''user_agent'' ''--user-agent'' (PStr ''''),
     mk_option ''referer'' ''--referer'' (PStr ''''),
     mk_option ''ignore_errors'' ''-i'' (PBool False),
     mk_option ''write_description'' ''--write-description'' (PBool False),
     mk_option ''write_info'' ''--write-info-json'' (PBool False),
     mk_option ''write_thumbnail'' ''--write-thumbnail'' (PBool False),
     mk_option ''min_filesize'' ''--min-filesize'' (PInt 0),
     mk_option ''max_filesize'' ''--max-filesize'' (PInt 0),
     mk_option ''write_all_subs'' ''--all-subs'' (PBool False),
     mk_option ''write_auto_subs'' ''--write-auto-sub'' (PBool False),
     mk_option ''write_subs'' ''--write-sub'' (PBool False),
     mk_option ''keep_video'' ''-k'' (PBool False),
     mk_option ''restrict_filenames'' ''--restrict-filenames'' (PBool False),
     mk_option ''save_path'' ''-o'' (PStr ''''),
     mk_option_req ''embed_subs'' ''--embed-subs'' (PBool False)
       [''write_auto_subs'', ''write_subs''],
     mk_option ''to_audio'' ''-x'' (PBool False),
     mk_option_req ''audio_format'' ''--audio-format'' (PStr '''') [''to_audio''],
     mk_option ''video_format'' ''-f'' (PStr ''0''),
     mk_option_req ''subs_lang'' ''--sub-lang'' (PStr '''') [''write_subs''],
     mk_option_req ''audio_quality'' ''--audio-quality'' (PStr ''5'') [''to_audio'']]"

text \<open>
  \<open>_build_savepath\<close>. \<open>remove_shortcuts\<close> is a function on strings and \<open>os.path.join\<close>
  calls string methods on its arguments, so a save path or a template that is not a
  string is an error.
\<close>

definition build_savepath :: "utils \<Rightarrow> dict \<Rightarrow> error + dict" where
  "build_savepath u options_dict =
     (case getitem options_dict ''save_path'' of
        Inl e \<Rightarrow> Inl e
      | Inr (PStr sp) \<Rightarrow>
          (let save_path = remove_shortcuts u sp in
           case getitem options_dict ''output_format'' of
             Inl e \<Rightarrow> Inl e
           | Inr fmt \<Rightarrow>
               if py_eq fmt (PStr ''id'') then
                 Inr (options_dict(''save_path'' \<mapsto> PStr (path_join save_path ''%(id)s.%(ext)s'')))
               else if py_eq fmt (PStr ''title'') then
                 Inr (options_dict(''save_path'' \<mapsto> PStr (path_join save_path ''%(title)s.%(ext)s'')))
               else
                 (case getitem options_dict ''output_template'' of
                    Inl e \<Rightarrow> Inl e
                  | Inr (PStr t) \<Rightarrow>
                      Inr (options_dict(''save_path'' \<mapsto> PStr (path_join save_path t)))
                  | Inr _ \<Rightarrow> Inl AttributeError))
      | Inr _ \<Rightarrow> Inl AttributeError)"

text \<open>
  \<open>_build_videoformat\<close>. The \<open>and\<close> short-circuits: \<open>second_video_format\<close> is looked
  up only when \<open>video_format\<close> differs from \<open>'0'\<close>. \<open>+\<close> concatenates strings and
  raises \<open>TypeError\<close> on anything else.
\<close>

definition str_add :: "pyval \<Rightarrow> pyval \<Rightarrow> error + pyval" where
  "str_add a b = (case (a, b) of (PStr s, PStr t) \<Rightarrow> Inr (PStr (s @ t)) | _ \<Rightarrow> Inl TypeError)"

definition build_videoformat :: "dict \<Rightarrow> error + dict" where
  "build_videoformat options_dict =
     (case getitem options_dict ''video_format'' of
        Inl e \<Rightarrow> Inl e
      | Inr vf \<Rightarrow>
          if py_eq vf (PStr ''0'') then Inr options_dict
          else
            (case getitem options_dict ''second_video_format'' of
               Inl e \<Rightarrow> Inl e
             | Inr svf \<Rightarrow>
                 if py_eq svf (PStr ''0'') then Inr options_dict
                 else
                   (case str_add vf (PStr ''+'') of
                      Inl e \<Rightarrow> Inl e
                    | Inr vfp \<Rightarrow>
                        (case str_add vfp svf of
                           Inl e \<Rightarrow> Inl e
                         | Inr v \<Rightarrow> Inr (options_dict(''video_format'' \<mapsto> v))))))"

text \<open>\<open>_build_filesizes\<close>: one threshold, then the other; the unit is read only for a truthy threshold.\<close>

definition build_filesize :: "utils \<Rightarrow> string \<Rightarrow> string \<Rightarrow> dict \<Rightarrow> error + dict" where
  "build_filesize u key unit_key options_dict =
     (case getitem options_dict key of
        Inl e \<Rightarrow> Inl e
      | Inr v \<Rightarrow>
          if truthy v then
            (case getitem options_dict unit_key of
               Inl e \<Rightarrow> Inl e
             | Inr un \<Rightarrow>
                 (case str_add (PStr (to_string u v)) un of
                    Inl e \<Rightarrow> Inl e
                  | Inr s \<Rightarrow> Inr (options_dict(key \<mapsto> s))))
          else Inr options_dict)"

definition build_filesizes :: "utils \<Rightarrow> dict \<Rightarrow> error + dict" where
  "build_filesizes u options_dict =
     (case build_filesize u ''min_filesize'' ''min_filesize_unit'' options_dict of
        Inl e \<Rightarrow> Inl e
      | Inr d \<Rightarrow> build_filesize u ''max_filesize'' ''max_filesize_unit'' d)"

text \<open>The loop over \<open>self._ydl_options\<close>; \<open>options_list\<close> is the accumulator.\<close>

fun parse_options :: "utils \<Rightarrow> dict \<Rightarrow> OptionHolder list \<Rightarrow> string list \<Rightarrow> error + string list" where
  "parse_options u options_dict [] options_list = Inr options_list"
| "parse_options u options_dict (opt # opts) options_list =
     (case check_requirements opt options_dict of
        Inl e \<Rightarrow> Inl e
      | Inr False \<Rightarrow> parse_options u options_dict opts options_list
      | Inr True \<Rightarrow>
          (case getitem options_dict (name opt) of
             Inl e \<Rightarrow> Inl e
           | Inr v \<Rightarrow>
               if \<not> py_eq v (default_value opt) then
                 parse_options u options_dict opts
                   (options_list @ [flag opt] @ (if \<not> is_boolean opt then [to_string u v] else []))
               else parse_options u options_dict opts options_list))"

text \<open>\<open>for option in options_dict['cmd_args'].split(): options_list.append(option)\<close>\<close>

definition parse_cmd_args :: "dict \<Rightarrow> string list \<Rightarrow> error + string list" where
  "parse_cmd_args options_dict options_list =
     (case getitem options_dict ''cmd_args'' of
        Inl e \<Rightarrow> Inl e
      | Inr (PStr s) \<Rightarrow> Inr (options_list @ py_split s)
      | Inr _ \<Rightarrow> Inl AttributeError)"

text \<open>
  \<open>parse\<close> on an object store. Dictionaries are mutable objects: the store is the list
  of the dictionaries allocated so far and a reference is an index into it.
  \<open>options_dictionary.copy()\<close> allocates a new dictionary with the same bindings; the
  three \<open>_build_\<close> methods are handed the reference of the copy and assign into it.
  \<open>parse_obj\<close> returns the result (the raised error or the token list) and the store
  the call leaves behind. When a step raises, what it had assigned to the copy before
  it raised is not recorded: no reference to the copy outlives the call.
\<close>

type_synonym store = "dict list"

definition dict_copy :: "store \<Rightarrow> nat \<Rightarrow> nat \<times> store" where
  "dict_copy h a = (length h, h @ [h ! a])"

definition mutate :: "(dict \<Rightarrow> error + dict) \<Rightarrow> store \<Rightarrow> nat \<Rightarrow> error + store" where
  "mutate f h r = (case f (h ! r) of Inl e \<Rightarrow> Inl e | Inr d \<Rightarrow> Inr (h[r := d]))"

definition parse_obj :: "utils \<Rightarrow> store \<Rightarrow> nat \<Rightarrow> (error + string list) \<times> store" where
  "parse_obj u h options_dictionary =
     (let options_list = [''--newline''];
          (options_dict, h0) = dict_copy h options_dictionary
      in case mutate (build_savepath u) h0 options_dict of
           Inl e \<Rightarrow> (Inl e, h0)
         | Inr h1 \<Rightarrow>
        (case mutate build_videoformat h1 options_dict of
           Inl e \<Rightarrow> (Inl e, h1)
         | Inr h2 \<Rightarrow>
        (case mutate (build_filesizes u) h2 options_dict of
           Inl e \<Rightarrow> (Inl e, h2)
         | Inr h3 \<Rightarrow>
        (case parse_options u (h3 ! options_dict) ydl_options options_list of
           Inl e \<Rightarrow> (Inl e, h3)
         | Inr options_list1 \<Rightarrow> (parse_cmd_args (h3 ! options_dict) options_list1, h3)))))"

text \<open>The result of \<open>parse\<close> as a function of the dictionary it is given.\<close>

definition parse :: "utils \<Rightarrow> dict \<Rightarrow> error + string list" where
  "parse u options_dictionary = fst (parse_obj u [options_dictionary] 0)"

section \<open>Notions used to state the properties of \<open>parse\<close>\<close>

text \<open>The dictionary the loop reads: the copy after the three \<open>_build_\<close> steps.\<close>

definition derive_options :: "utils \<Rightarrow> dict \<Rightarrow> error + dict" where
  "derive_options u d =
     (case build_savepath u d of
        Inl e \<Rightarrow> Inl e
      | Inr d1 \<Rightarrow>
          (case build_videoformat d1 of Inl e \<Rightarrow> Inl e | Inr d2 \<Rightarrow> build_filesizes u d2))"

definition truthy_at :: "dict \<Rightarrow> string \<Rightarrow> bool" where
  "truthy_at d k = (case d k of None \<Rightarrow> False | Some v \<Rightarrow> truthy v)"

text \<open>An entry's requirement check passes: it names no requirements, or one of them is truthy.\<close>

definition requirement_passes :: "OptionHolder \<Rightarrow> dict \<Rightarrow> bool" where
  "requirement_passes opt d =
     (case requirements opt of None \<Rightarrow> True | Some reqs \<Rightarrow> list_ex (truthy_at d) reqs)"

text \<open>
  What one schema entry contributes to the token list: nothing, or its flag, followed
  by the string form of its value unless the entry is a boolean switch.
\<close>

definition contribution :: "utils \<Rightarrow> dict \<Rightarrow> OptionHolder \<Rightarrow> string list" where
  "contribution u d opt =
     (case d (name opt) of
        None \<Rightarrow> []
      | Some v \<Rightarrow>
          if requirement_passes opt d \<and> \<not> py_eq v (default_value opt)
          then flag opt # (if is_boolean opt then [] else [to_string u v])
          else [])"

text \<open>Every schema option holds (a value equal to) its default value.\<close>

definition schema_defaults :: "dict \<Rightarrow> bool" where
  "schema_defaults cfg =
     list_all (\<lambda>opt. case cfg (name opt) of None \<Rightarrow> False | Some v \<Rightarrow> py_eq v (default_value opt))
       ydl_options"

text \<open>The keys whose values \<open>parse\<close> uses as strings hold strings, where they are bound.\<close>

definition is_str :: "pyval \<Rightarrow> bool" where
  "is_str v = (case v of PStr _ \<Rightarrow> True | _ \<Rightarrow> False)"

definition strings_typed :: "dict \<Rightarrow> bool" where
  "strings_typed cfg =
     list_all (\<lambda>k. case cfg k of None \<Rightarrow> True | Some v \<Rightarrow> is_str v)
       [''save_path'', ''output_template'', ''video_format'', ''second_video_format'',
        ''min_filesize_unit'', ''max_filesize_unit'', ''cmd_args'']"

text \<open>
  The keys a call of \<open>parse\<close> looks up on the path the configuration selects: six
  always, the template, the second format and the two units under the condition of the
  branch that reads them, every requirement of a schema entry, and the name of every
  entry whose requirement check passes.
\<close>

definition differs_at :: "dict \<Rightarrow> string \<Rightarrow> pyval \<Rightarrow> bool" where
  "differs_at d k w = (case d k of None \<Rightarrow> False | Some v \<Rightarrow> \<not> py_eq v w)"

definition keys_read :: "dict \<Rightarrow> string list" where
  "keys_read cfg =
     [''save_path'', ''output_format'', ''video_format'', ''min_filesize'', ''max_filesize'',
      ''cmd_args'']
     @ (if differs_at cfg ''output_format'' (PStr ''id'')
           \<and> differs_at cfg ''output_format'' (PStr ''title'')
        then [''output_template''] else [])
     @ (if differs_at cfg ''video_format'' (PStr ''0'') then [''second_video_format''] else [])
     @ (if truthy_at cfg ''min_filesize'' then [''min_filesize_unit''] else [])
     @ (if truthy_at cfg ''max_filesize'' then [''max_filesize_unit''] else [])
     @ concat (map (\<lambda>opt. case requirements opt of None \<Rightarrow> [] | Some reqs \<Rightarrow> reqs) ydl_options)
     @ map name (filter (\<lambda>opt. requirement_passes opt cfg) ydl_options)"

text \<open>The keys the three \<open>_build_\<close> steps assign to, and the keys they read or assign to.\<close>

definition modified_keys :: "string set" where
  "modified_keys = {''save_path'', ''video_format'', ''min_filesize'', ''max_filesize''}"

definition build_keys :: "string set" where
  "build_keys = {''save_path'', ''output_format'', ''output_template'', ''video_format'',
     ''second_video_format'', ''min_filesize'', ''min_filesize_unit'', ''max_filesize'',
     ''max_filesize_unit''}"

text \<open>Rebinding or removing one key in the dictionary a step returns.\<close>

definition upd_result :: "string \<Rightarrow> pyval option \<Rightarrow> error + dict \<Rightarrow> error + dict" where
  "upd_result k x r = (case r of Inl e \<Rightarrow> Inl e | Inr d \<Rightarrow> Inr (d(k := x)))"

section \<open>An instance of the helpers and example configurations\<close>

text \<open>
  Modelled from the spec: \<open>to_string\<close> and \<open>remove_shortcuts\<close> of \<open>utils\<close>, which the
  sources do not hold. \<open>to_string\<close> gives "the value's canonical string form", Python's
  \<open>'%s' % value\<close>. \<open>remove_shortcuts\<close> "strips shortcut/alias path segments"; the
  paths of the examples below hold none, and the instance returns its argument. The
  instance only serves to evaluate \<open>parse\<close> on examples.
\<close>

fun str_nat :: "nat \<Rightarrow> string" where
  "str_nat n =
     (if n < 10 then [''0123456789'' ! n]
      else str_nat (n div 10) @ [''0123456789'' ! (n mod 10)])"

definition str_int :: "int \<Rightarrow> string" where
  "str_int i = (if i < 0 then CHR ''-'' # str_nat (nat (- i)) else str_nat (nat i))"

fun py_str :: "pyval \<Rightarrow> string" where
  "py_str PNone = ''None''"
| "py_str (PBool b) = (if b then ''True'' else ''False'')"
| "py_str (PInt i) = str_int i"
| "py_str (PStr s) = s"

definition utils_plain :: utils where
  "utils_plain = \<lparr>remove_shortcuts = (\<lambda>p. p), to_string = py_str\<rparr>"

text \<open>
  A full configuration in which every schema option holds the default value of its
  schema entry.
\<close>

definition default_options :: "(string \<times> pyval) list" where
  "default_options =
    [(''playlist_start'', PInt 1), (''playlist_end'', PInt 0), (''max_downloads'', PInt 0),
     (''username'', PStr ''''), (''password'', PStr ''''), (''video_password'', PStr ''''),
     (''retries'', PInt 10), (''proxy'', PStr ''''), (''user_agent'', PStr ''''),
     (''referer'', PStr ''''), (''ignore_errors'', PBool False),
     (''write_description'', PBool False), (''write_info'', PBool False),
     (''write_thumbnail'', PBool False), (''min_filesize'', PInt 0), (''max_filesize'', PInt 0),
     (''write_all_subs'', PBool False), (''write_auto_subs'', PBool False),
     (''write_subs'', PBool False), (''keep_video'', PBool False),
     (''restrict_filenames'', PBool False), (''save_path'', PStr ''''),
     (''embed_subs'', PBool False), (''to_audio'', PBool False), (''audio_format'', PStr ''''),
     (''video_format'', PStr ''0''), (''subs_lang'', PStr ''''), (''audio_quality'', PStr ''5''),
     (''output_format'', PStr ''title''),
     (''output_template'', PStr ''%(uploader)s/%(title)s.%(ext)s''),
     (''second_video_format'', PStr ''0''), (''min_filesize_unit'', PStr ''''),
     (''max_filesize_unit'', PStr ''''), (''cmd_args'', PStr '''')]"

definition cfg_default :: dict where
  "cfg_default = map_of default_options"

text \<open>A configuration with several options set and two passthrough arguments.\<close>

definition cfg_busy :: dict where
  "cfg_busy = cfg_default
     (''save_path'' \<mapsto> PStr ''/home/user'', ''retries'' \<mapsto> PInt 5,
      ''write_subs'' \<mapsto> PBool True, ''embed_subs'' \<mapsto> PBool True,
      ''min_filesize'' \<mapsto> PInt 10, ''min_filesize_unit'' \<mapsto> PStr ''M'',
      ''cmd_args'' \<mapsto> PStr ''--no-mtime  -v'')"


text \<open>
  Two configurations without \<open>min_filesize_unit\<close>: one with the default threshold 0,
  one with the threshold 10.
\<close>

definition cfg_no_unit :: dict where
  "cfg_no_unit = cfg_default(''save_path'' \<mapsto> PStr ''/home/user'', ''min_filesize_unit'' := None)"

definition cfg_unit_needed :: dict where
  "cfg_unit_needed = cfg_busy(''min_filesize_unit'' := None)"

text \<open>
  A configuration without \<open>cmd_args\<close> whose \<open>video_format\<close> is the integer 5: the
  concatenation \<open>5 + '+'\<close> of \<open>_build_videoformat\<close> raises \<open>TypeError\<close>.
\<close>

definition cfg_int_format :: dict where
  "cfg_int_format = cfg_default(''video_format'' \<mapsto> PInt 5,
      ''second_video_format'' \<mapsto> PStr ''1'', ''cmd_args'' := None)"

text \<open>\<open>write_all_subs\<close> and \<open>embed_subs\<close> enabled, the other subtitle options off.\<close>

definition cfg_all_subs :: dict where
  "cfg_all_subs = cfg_default(''save_path'' \<mapsto> PStr ''/home/user'',
      ''write_all_subs'' \<mapsto> PBool True, ''embed_subs'' \<mapsto> PBool True)"

text \<open>The default configuration with two passthrough arguments.\<close>

definition cfg_default_args :: dict where
  "cfg_default_args = cfg_default(''cmd_args'' \<mapsto> PStr ''--no-mtime -v'')"

section \<open>The download item\<close>

text \<open>
  Modelled from the spec: the class \<open>DownloadItem\<close> of \<open>downloadmanager.py\<close>, the
  spec's Job Record, with its stages and its nine-field progress snapshot. The sources
  hold the tests of the class (\<open>src/tests/test_ditem.py\<close>) and not the class. The
  model follows section 4.1 of the spec. Where the prose of that section and the tests
  differ, the model follows the tests, which are code of the repository; each such
  place is marked at the definition it concerns. Sizes are exact rationals: the
  floating-point numbers of the code are not modelled.
\<close>

datatype stage = Queued | Active | Paused | Completed | Error

datatype item_error = InvalidStage | IllegalReset | MalformedInput | UnitParseError

record stats =
  filename :: string
  extension :: string
  filesize :: string
  percent :: string
  speed :: string
  eta :: string
  status :: string
  playlist_size :: string
  playlist_index :: string

record DownloadItem =
  url :: string
  options :: "string list"
  path :: string
  filenames :: "string list"
  extensions :: "string list"
  filesizes :: "rat list"
  stage :: stage
  progress_stats :: stats

text \<open>
  Modelled from the spec: the snapshot and the item at construction. The file name of
  the snapshot is the URL; the values of the other fields are those \<open>test_init\<close>
  asserts.
\<close>

definition default_values :: "string \<Rightarrow> stats" where
  "default_values u =
     \<lparr>filename = u, extension = ''-'', filesize = ''-'', percent = ''0%'', speed = ''-'',
      eta = ''-'', status = ''Queued'', playlist_size = '''', playlist_index = ''''\<rparr>"

definition init_item :: "string \<Rightarrow> string list \<Rightarrow> DownloadItem" where
  "init_item u opts =
     \<lparr>url = u, options = opts, path = '''', filenames = [], extensions = [], filesizes = [],
      stage = Queued, progress_stats = default_values u\<rparr>"

text \<open>
  Modelled from the spec: \<open>DownloadItem.reset\<close>, illegal while the item is active;
  otherwise the stage is Queued, the path and the three sequences are cleared and the
  snapshot is the one of construction.
\<close>

definition reset :: "DownloadItem \<Rightarrow> item_error + DownloadItem" where
  "reset item =
     (if stage item = Active then Inl IllegalReset
      else Inr (item\<lparr>stage := Queued, path := '''', filenames := [], extensions := [],
                     filesizes := [], progress_stats := default_values (url item)\<rparr>))"

text \<open>
  Modelled from the spec: the classification of a raw status into a stage, with the
  three status lists of the spec's table (and of \<open>test_set_stage\<close>); a status outside
  the lists leaves the stage.
\<close>

definition ACTIVE_STAGES :: "string list" where
  "ACTIVE_STAGES = [''Pre Processing'', ''Downloading'', ''Post Processing'']"

definition COMPLETED_STAGES :: "string list" where
  "COMPLETED_STAGES = [''Finished'', ''Warning'', ''Already Downloaded'']"

definition ERROR_STAGES :: "string list" where
  "ERROR_STAGES = [''Error'', ''Stopped'', ''Filesize Abort'']"

definition set_stage :: "string \<Rightarrow> DownloadItem \<Rightarrow> DownloadItem" where
  "set_stage st item =
     (if st \<in> set ACTIVE_STAGES then item\<lparr>stage := Active\<rparr>
      else if st \<in> set COMPLETED_STAGES then item\<lparr>stage := Completed\<rparr>
      else if st \<in> set ERROR_STAGES then item\<lparr>stage := Error\<rparr>
      else item)"

text \<open>
  Modelled from the spec: the parser of size strings, "numeral + binary unit suffix: B,
  KiB, MiB, GiB, ..., base 1024". The numeral is a decimal numeral with an optional
  fraction. Any other string is a \<open>UnitParseError\<close>, here \<open>None\<close>.
\<close>

definition FILESIZE_METRICS :: "string list" where
  "FILESIZE_METRICS = [''B'', ''KiB'', ''MiB'', ''GiB'', ''TiB'', ''PiB'', ''EiB'', ''ZiB'', ''YiB'']"

fun index_of :: "'a \<Rightarrow> 'a list \<Rightarrow> nat option" where
  "index_of x [] = None"
| "index_of x (y # ys) = (if x = y then Some 0 else map_option Suc (index_of x ys))"

definition is_digit :: "char \<Rightarrow> bool" where
  "is_digit c = (c \<in> set ''0123456789'')"

fun nat_of_digits :: "nat \<Rightarrow> string \<Rightarrow> nat" where
  "nat_of_digits acc [] = acc"
| "nat_of_digits acc (c # cs) =
     nat_of_digits (10 * acc + (case index_of c ''0123456789'' of None \<Rightarrow> 0 | Some v \<Rightarrow> v)) cs"

definition parse_decimal :: "string \<Rightarrow> rat option" where
  "parse_decimal s =
     (let ip = takeWhile is_digit s; rest = dropWhile is_digit s
      in if ip = [] then None
         else if rest = [] then Some (of_nat (nat_of_digits 0 ip))
         else if hd rest = CHR ''.'' \<and> tl rest \<noteq> [] \<and> list_all is_digit (tl rest)
           then Some (of_nat (nat_of_digits 0 ip)
                      + of_nat (nat_of_digits 0 (tl rest)) / 10 ^ length (tl rest))
         else None)"

definition to_bytes :: "string \<Rightarrow> rat option" where
  "to_bytes s =
     (let num = takeWhile (\<lambda>c. is_digit c \<or> c = CHR ''.'') s;
          suffix = dropWhile (\<lambda>c. is_digit c \<or> c = CHR ''.'') s
      in case parse_decimal num of
           None \<Rightarrow> None
         | Some v \<Rightarrow>
             (case index_of suffix FILESIZE_METRICS of
                None \<Rightarrow> None
              | Some i \<Rightarrow> Some (v * 1024 ^ i)))"

text \<open>
  Modelled from the spec: the snapshot fields of \<open>update\<close>. A field of the report that is
  a non-empty string is copied; a field that is absent, or present with a value that is
  not a string, leaves the snapshot. A field sent as the empty string returns to its
  default: \<open>test_calc_post_proc_size\<close> sends \<open>speed\<close> and \<open>eta\<close> empty after
  \<open>222.22KiB/s\<close> and \<open>N/A\<close> and asserts \<open>-\<close> for both, where the prose of the spec
  keeps the previous value.
\<close>

definition stat_value :: "dict \<Rightarrow> string \<Rightarrow> string \<Rightarrow> string \<Rightarrow> string" where
  "stat_value sd key dflt cur =
     (case sd key of
        None \<Rightarrow> cur
      | Some (PStr s) \<Rightarrow> (if s = [] then dflt else s)
      | Some _ \<Rightarrow> cur)"

definition update_progress :: "stats \<Rightarrow> dict \<Rightarrow> stats \<Rightarrow> stats" where
  "update_progress dv sd ps =
     \<lparr>filename = stat_value sd ''filename'' (filename dv) (filename ps),
      extension = stat_value sd ''extension'' (extension dv) (extension ps),
      filesize = stat_value sd ''filesize'' (filesize dv) (filesize ps),
      percent = stat_value sd ''percent'' (percent dv) (percent ps),
      speed = stat_value sd ''speed'' (speed dv) (speed ps),
      eta = stat_value sd ''eta'' (eta dv) (eta ps),
      status = stat_value sd ''status'' (status dv) (status ps),
      playlist_size = stat_value sd ''playlist_size'' (playlist_size dv) (playlist_size ps),
      playlist_index = stat_value sd ''playlist_index'' (playlist_index dv) (playlist_index ps)\<rparr>"

text \<open>
  Modelled from the spec: the fields \<open>filename\<close> and \<open>extension\<close> of \<open>update\<close>, "each
  present value is appended to its respective ordered sequence"; a value that is not a
  string is ignored.
\<close>

definition append_field :: "dict \<Rightarrow> string \<Rightarrow> string list \<Rightarrow> string list" where
  "append_field sd key xs = (case sd key of Some (PStr s) \<Rightarrow> xs @ [s] | _ \<Rightarrow> xs)"

text \<open>
  Modelled from the spec: the field \<open>filesize\<close> of \<open>update\<close>. The parsed size is
  appended when the report also brings an extension (a new file began), and otherwise
  written over the last recorded size; with no recorded size there is nothing to write
  over. A size string that does not parse leaves the sizes and does not abort the
  update.
\<close>

definition update_filesizes :: "dict \<Rightarrow> rat list \<Rightarrow> rat list" where
  "update_filesizes sd sizes =
     (case sd ''filesize'' of
        Some (PStr s) \<Rightarrow>
          (case to_bytes s of
             None \<Rightarrow> sizes
           | Some b \<Rightarrow>
               if sd ''extension'' \<noteq> None then sizes @ [b]
               else if sizes = [] then sizes
               else butlast sizes @ [b])
      | _ \<Rightarrow> sizes)"

text \<open>
  Modelled from the spec: the field \<open>status\<close> of \<open>update\<close>. The status
  \<open>Post Processing\<close> records the sum of the sizes recorded so far as the size of the
  merged file and shows its human-readable form in the snapshot; every status is then
  classified into a stage. The sum is a new entry of the sequence:
  \<open>test_calc_post_proc_size\<close> and section 8 of the spec have three entries after two
  downloads, where the prose of section 4.1 speaks of replacing the last entry.
  \<open>format_bytes\<close>, the human-readable form of a byte count, is a parameter.
\<close>

definition update_status :: "(rat \<Rightarrow> string) \<Rightarrow> dict \<Rightarrow> DownloadItem \<Rightarrow> DownloadItem" where
  "update_status format_bytes sd item =
     (case sd ''status'' of
        Some (PStr st) \<Rightarrow>
          set_stage st
            (if st = ACTIVE_STAGES ! 2 then
               item\<lparr>filesizes := filesizes item @ [sum_list (filesizes item)],
                    progress_stats := (progress_stats item)
                      \<lparr>filesize := format_bytes (sum_list (filesizes item))\<rparr>\<rparr>
             else item)
      | _ \<Rightarrow> item)"

text \<open>
  Modelled from the spec: \<open>DownloadItem.update_stats\<close>, the spec's \<open>update\<close>. The
  argument is a dictionary or some other object; another object is a
  \<open>MalformedInput\<close>. The path of the report is stored as it is.
\<close>

datatype stats_arg = StatsDict dict | NotADict

definition update_stats :: "(rat \<Rightarrow> string) \<Rightarrow> DownloadItem \<Rightarrow> stats_arg \<Rightarrow> item_error + DownloadItem" where
  "update_stats format_bytes item arg =
     (case arg of
        NotADict \<Rightarrow> Inl MalformedInput
      | StatsDict sd \<Rightarrow>
          Inr (update_status format_bytes sd
                 (item\<lparr>path := (case sd ''path'' of Some (PStr p) \<Rightarrow> p | _ \<Rightarrow> path item),
                       filenames := append_field sd ''filename'' (filenames item),
                       extensions := append_field sd ''extension'' (extensions item),
                       filesizes := update_filesizes sd (filesizes item),
                       progress_stats :=
                         update_progress (default_values (url item)) sd (progress_stats item)\<rparr>)))"

text \<open>A sequence of calls of \<open>update_stats\<close> on one item; the first failure ends it.\<close>

fun update_all :: "(rat \<Rightarrow> string) \<Rightarrow> DownloadItem \<Rightarrow> stats_arg list \<Rightarrow> item_error + DownloadItem" where
  "update_all format_bytes item [] = Inr item"
| "update_all format_bytes item (arg # args) =
     (case update_stats format_bytes item arg of
        Inl e \<Rightarrow> Inl e
      | Inr item' \<Rightarrow> update_all format_bytes item' args)"

text \<open>
  Modelled from the spec: \<open>format_bytes\<close>, "the human-readable form" of a byte count,
  as an instance for evaluating examples: the count in the largest unit that leaves it
  at least 1, with two decimals (\<open>13.45MiB\<close> in \<open>test_calc_post_proc_size\<close>).
\<close>

fun unit_exponent :: "nat \<Rightarrow> rat \<Rightarrow> nat" where
  "unit_exponent 0 b = 0"
| "unit_exponent (Suc n) b = (if b < 1024 then 0 else Suc (unit_exponent n (b / 1024)))"

definition format_bytes :: "rat \<Rightarrow> string" where
  "format_bytes b =
     (let e = unit_exponent 8 b;
          cents = nat (round (b / 1024 ^ e * 100))
      in str_nat (cents div 100) @ ''.'' @ str_nat (cents mod 100 div 10)
           @ str_nat (cents mod 10) @ FILESIZE_METRICS ! e)"

text \<open>The item and the reports of \<open>test_calc_post_proc_size\<close>.\<close>

definition test_item :: DownloadItem where
  "test_item = init_item ''url'' [''-f'', ''flv'']"

definition report_webm :: stats_arg where
  "report_webm = StatsDict (map_of
     [(''filename'', PStr ''file.f123''), (''extension'', PStr ''.webm''),
      (''filesize'', PStr ''10.00MiB''), (''percent'', PStr ''75.0%''),
      (''speed'', PStr ''123.45KiB/s''), (''eta'', PStr ''N/A''),
      (''status'', PStr ''Downloading''), (''path'', PStr ''/home/user'')])"

definition report_m4a :: stats_arg where
  "report_m4a = StatsDict (map_of
     [(''filename'', PStr ''file.f456''), (''extension'', PStr ''.m4a''),
      (''filesize'', PStr ''3.45MiB''), (''percent'', PStr ''96.0%''),
      (''speed'', PStr ''222.22KiB/s''), (''eta'', PStr ''N/A''),
      (''status'', PStr ''Downloading''), (''path'', PStr ''/home/user'')])"

definition report_post_processing :: stats_arg where
  "report_post_processing = StatsDict (map_of
     [(''filename'', PStr ''file''), (''extension'', PStr ''.webm''),
      (''percent'', PStr ''100%''), (''speed'', PStr ''''), (''eta'', PStr ''''),
      (''status'', PStr ''Post Processing'')])"

text \<open>A report with the status \<open>Post Processing\<close> and nothing else.\<close>

definition report_status_only :: stats_arg where
  "report_status_only = StatsDict (map_of [(''status'', PStr ''Post Processing'')])"

text \<open>The reports of \<open>test_update_stats\<close>.\<close>

definition report_mp4 :: stats_arg where
  "report_mp4 = StatsDict (map_of
     [(''filename'', PStr ''somefilename''), (''extension'', PStr ''.mp4''),
      (''filesize'', PStr ''9.45MiB''), (''percent'', PStr ''2.0%''),
      (''speed'', PStr ''200.00KiB/s''), (''eta'', PStr ''00:38''),
      (''status'', PStr ''Downloading''), (''path'', PStr ''/home/user''),
      (''playlist_size'', PStr ''10''), (''playlist_index'', PStr ''1'')])"

definition report_second_file :: stats_arg where
  "report_second_file = StatsDict (map_of
     [(''filename'', PStr ''someotherfilename''), (''extension'', PStr ''.m4a''),
      (''percent'', PStr ''50.0%''), (''filesize'', PStr ''2.00MiB''),
      (''playlist_index'', PStr ''2'')])"

definition report_progress :: stats_arg where
  "report_progress = StatsDict (map_of
     [(''percent'', PStr ''65.0%''), (''filesize'', PStr ''2.00MiB''),
      (''playlist_index'', PStr ''2'')])"

text \<open>The items of \<open>test_reset_completed_stage\<close> and \<open>test_reset_active_stage\<close>.\<close>

definition completed_item :: DownloadItem where
  "completed_item = test_item
     \<lparr>path := ''/home/user'', filenames := [''file''], extensions := [''.mp4''],
      filesizes := [123456], stage := Completed,
      progress_stats := \<lparr>filename = ''file'', extension = ''.mp4'', filesize = ''6.66MiB'',
        percent = ''100%'', speed = ''-'', eta = ''00:00'', status = ''Finished'',
        playlist_size = '''', playlist_index = ''''\<rparr>\<rparr>"

definition active_item :: DownloadItem where
  "active_item = test_item
     \<lparr>path := ''/home/user'', filenames := [''file1''], extensions := [''.mp4''],
      filesizes := [1234], stage := Active,
      progress_stats := \<lparr>filename = ''file1'', extension = ''.mp4'', filesize = ''9.45MiB'',
        percent = ''75.5%'', speed = ''200.00KiB/s'', eta = ''00:10'', status = ''Downloading'',
        playlist_size = '''', playlist_index = ''''\<rparr>\<rparr>"

section \<open>Lemmas about the steps of \<open>parse\<close>\<close>

lemma getitem_simps [simp]:
  "d k = None \<Longrightarrow> getitem d k = Inl (KeyError k)"
  "d k = Some v \<Longrightarrow> getitem d k = Inr v"
  by (simp_all add: getitem_def)

lemma getitem_Inr: "getitem d k = Inr v \<longleftrightarrow> d k = Some v"
  by (simp add: getitem_def split: option.splits)

lemma getitem_Inl: "getitem d k = Inl e \<longleftrightarrow> (d k = None \<and> e = KeyError k)"
  by (auto simp add: getitem_def split: option.splits)

lemma lookup_all_ex:
  "lookup_all d rs = Inr vs \<Longrightarrow> list_ex truthy vs = list_ex (truthy_at d) rs"
  by (induction rs arbitrary: vs)
     (auto simp: truthy_at_def getitem_def split: sum.splits option.splits)

lemma check_requirements_passes:
  "check_requirements opt d = Inr b \<Longrightarrow> b = requirement_passes opt d"
  by (auto simp: check_requirements_def requirement_passes_def lookup_all_ex
      split: option.splits sum.splits)

text \<open>The loop with its accumulator appends the contributions of the entries, in order.\<close>

lemma parse_options_concat:
  "parse_options u d opts acc = Inr l \<Longrightarrow> l = acc @ concat (map (contribution u d) opts)"
proof (induction opts arbitrary: acc)
  case Nil
  then show ?case by simp
next
  case (Cons opt opts)
  show ?case
  proof (cases "check_requirements opt d")
    case (Inl e)
    with Cons.prems show ?thesis by simp
  next
    case (Inr b)
    then have b: "b = requirement_passes opt d" by (rule check_requirements_passes)
    show ?thesis
    proof (cases b)
      case False
      with Inr b Cons show ?thesis by (simp add: contribution_def split: option.splits)
    next
      case True
      with Inr b Cons.prems obtain v where v: "d (name opt) = Some v"
        by (auto simp: getitem_def split: option.splits)
      show ?thesis
      proof (cases "py_eq v (default_value opt)")
        case eq: True
        with True Inr v Cons.prems have "parse_options u d opts acc = Inr l" by simp
        from Cons.IH [OF this] eq v show ?thesis by (simp add: contribution_def)
      next
        case ne: False
        let ?c = "flag opt # (if is_boolean opt then [] else [to_string u v])"
        from ne True Inr v Cons.prems have "parse_options u d opts (acc @ ?c) = Inr l"
          by (cases "is_boolean opt") simp_all
        from Cons.IH [OF this] ne v True b show ?thesis by (simp add: contribution_def)
      qed
    qed
  qed
qed

text \<open>A call on the store: the result depends on the bindings of the argument only, and
  the store grows by the one dictionary the call allocates.\<close>

lemma parse_obj_eq:
  "a < length h \<Longrightarrow> \<exists>d. parse_obj u h a =
     (case derive_options u (h ! a) of
        Inl e \<Rightarrow> Inl e
      | Inr d \<Rightarrow> (case parse_options u d ydl_options [''--newline''] of
                   Inl e \<Rightarrow> Inl e | Inr l \<Rightarrow> parse_cmd_args d l),
      h @ [d])"
  by (simp add: parse_obj_def dict_copy_def mutate_def derive_options_def Let_def nth_append
      split: sum.splits)

lemma parse_unfold:
  "parse u cfg =
     (case derive_options u cfg of
        Inl e \<Rightarrow> Inl e
      | Inr d \<Rightarrow> (case parse_options u d ydl_options [''--newline''] of
                   Inl e \<Rightarrow> Inl e | Inr l \<Rightarrow> parse_cmd_args d l))"
  using parse_obj_eq [of 0 "[cfg]" u] by (auto simp add: parse_def)

lemma parse_cmd_args_Inr:
  "parse_cmd_args d l = Inr toks \<Longrightarrow> \<exists>s. d ''cmd_args'' = Some (PStr s) \<and> toks = l @ py_split s"
  by (auto simp: parse_cmd_args_def getitem_def split: option.splits sum.splits pyval.splits)

lemma parse_Inr:
  assumes "parse u cfg = Inr toks"
  shows "\<exists>d s. derive_options u cfg = Inr d \<and> d ''cmd_args'' = Some (PStr s) \<and>
           toks = ''--newline'' # concat (map (contribution u d) ydl_options) @ py_split s"
proof -
  from assms obtain d l where d: "derive_options u cfg = Inr d"
    and l: "parse_options u d ydl_options [''--newline''] = Inr l"
    and c: "parse_cmd_args d l = Inr toks"
    by (auto simp: parse_unfold split: sum.splits)
  from parse_cmd_args_Inr [OF c] obtain s
    where s: "d ''cmd_args'' = Some (PStr s)" and t: "toks = l @ py_split s"
    by blast
  from parse_options_concat [OF l] d s t show ?thesis by simp
qed

lemma parse_cfg_busy:
  "parse utils_plain cfg_busy =
     Inr [''--newline'', ''-R'', ''5'', ''--min-filesize'', ''10M'', ''--write-sub'',
          ''-o'', ''/home/user/%(title)s.%(ext)s'', ''--embed-subs'', ''--no-mtime'', ''-v'']"
  by code_simp

lemma build_savepath_Inr:
  assumes "build_savepath u d = Inr d'"
  shows "\<exists>p. d' = d(''save_path'' \<mapsto> PStr p)"
    and "d ''save_path'' \<noteq> None" and "d ''output_format'' \<noteq> None"
    and "differs_at d ''output_format'' (PStr ''id'') \<Longrightarrow>
         differs_at d ''output_format'' (PStr ''title'') \<Longrightarrow> d ''output_template'' \<noteq> None"
  using assms
  by (auto simp: build_savepath_def getitem_def differs_at_def Let_def
      split: option.splits pyval.splits if_splits)

lemma build_videoformat_Inr:
  assumes "build_videoformat d = Inr d'"
  shows "d' = d \<or> (\<exists>s. d' = d(''video_format'' \<mapsto> PStr s))"
    and "d ''video_format'' \<noteq> None"
    and "differs_at d ''video_format'' (PStr ''0'') \<Longrightarrow> d ''second_video_format'' \<noteq> None"
  using assms
  by (auto simp: build_videoformat_def getitem_def differs_at_def str_add_def
      split: option.splits pyval.splits if_splits sum.splits)

lemma build_filesize_Inr:
  assumes "build_filesize u k uk d = Inr d'"
  shows "d' = d \<or> (\<exists>s. d' = d(k \<mapsto> PStr s))"
    and "d k \<noteq> None"
    and "truthy_at d k \<Longrightarrow> d uk \<noteq> None"
  using assms
  by (auto simp: build_filesize_def getitem_def truthy_at_def str_add_def
      split: option.splits pyval.splits if_splits sum.splits)

lemma upd_or_same:
  fixes d :: dict
  assumes "d' = d \<or> (\<exists>s. d' = d(k \<mapsto> PStr s))" and "d k \<noteq> None"
  shows "x \<noteq> k \<Longrightarrow> d' x = d x" and "(d' x = None) = (d x = None)"
proof -
  from assms(1) show "x \<noteq> k \<Longrightarrow> d' x = d x"
    by (elim disjE exE) simp_all
  from assms show "(d' x = None) = (d x = None)"
    by (elim disjE exE) (simp, cases "x = k", simp_all)
qed

lemma derive_options_steps:
  assumes "derive_options u cfg = Inr d"
  obtains d1 d2 d3 where "build_savepath u cfg = Inr d1" "build_videoformat d1 = Inr d2"
    "build_filesize u ''min_filesize'' ''min_filesize_unit'' d2 = Inr d3"
    "build_filesize u ''max_filesize'' ''max_filesize_unit'' d3 = Inr d"
  using assms by (auto simp: derive_options_def build_filesizes_def split: sum.splits)

lemma derive_options_Inr:
  assumes "derive_options u cfg = Inr d"
  shows derive_dom: "(d k = None) = (cfg k = None)"
    and derive_same: "k \<notin> modified_keys \<Longrightarrow> d k = cfg k"
    and derive_reads: "cfg ''save_path'' \<noteq> None" "cfg ''output_format'' \<noteq> None"
       "cfg ''video_format'' \<noteq> None" "cfg ''min_filesize'' \<noteq> None" "cfg ''max_filesize'' \<noteq> None"
       "differs_at cfg ''output_format'' (PStr ''id'') \<Longrightarrow>
          differs_at cfg ''output_format'' (PStr ''title'') \<Longrightarrow> cfg ''output_template'' \<noteq> None"
       "differs_at cfg ''video_format'' (PStr ''0'') \<Longrightarrow> cfg ''second_video_format'' \<noteq> None"
       "truthy_at cfg ''min_filesize'' \<Longrightarrow> cfg ''min_filesize_unit'' \<noteq> None"
       "truthy_at cfg ''max_filesize'' \<Longrightarrow> cfg ''max_filesize_unit'' \<noteq> None"
proof -
  from assms obtain d1 d2 d3 where s1: "build_savepath u cfg = Inr d1"
    and s2: "build_videoformat d1 = Inr d2"
    and s3: "build_filesize u ''min_filesize'' ''min_filesize_unit'' d2 = Inr d3"
    and s4: "build_filesize u ''max_filesize'' ''max_filesize_unit'' d3 = Inr d"
    by (rule derive_options_steps)
  note f1 = build_savepath_Inr [OF s1] and f2 = build_videoformat_Inr [OF s2]
    and f3 = build_filesize_Inr [OF s3] and f4 = build_filesize_Inr [OF s4]
  from f1(1) obtain p where d1: "d1 = cfg(''save_path'' \<mapsto> PStr p)" ..
  have d2: "x \<noteq> ''video_format'' \<Longrightarrow> d2 x = d1 x" for x
    using f2(1) by (rule upd_or_same(1)) (rule f2(2))
  have n2: "(d2 x = None) = (d1 x = None)" for x
    using f2(1) f2(2) by (rule upd_or_same(2))
  have d3: "x \<noteq> ''min_filesize'' \<Longrightarrow> d3 x = d2 x" for x
    using f3(1) by (rule upd_or_same(1)) (rule f3(2))
  have n3: "(d3 x = None) = (d2 x = None)" for x
    using f3(1) f3(2) by (rule upd_or_same(2))
  have d4: "x \<noteq> ''max_filesize'' \<Longrightarrow> d x = d3 x" for x
    using f4(1) by (rule upd_or_same(1)) (rule f4(2))
  have n4: "(d x = None) = (d3 x = None)" for x
    using f4(1) f4(2) by (rule upd_or_same(2))
  have n1: "(d1 x = None) = (cfg x = None)" for x
    using f1(2) by (cases "x = ''save_path''") (simp_all add: d1)
  show "(d k = None) = (cfg k = None)" by (simp add: n1 n2 n3 n4)
  show "k \<notin> modified_keys \<Longrightarrow> d k = cfg k"
    by (simp add: modified_keys_def d1 d2 d3 d4)
  show "cfg ''save_path'' \<noteq> None" "cfg ''output_format'' \<noteq> None" by (rule f1(2), rule f1(3))
  show "cfg ''video_format'' \<noteq> None" using f2(2) by (simp add: n1)
  show "cfg ''min_filesize'' \<noteq> None" using f3(2) by (simp add: n1 n2)
  show "cfg ''max_filesize'' \<noteq> None" using f4(2) by (simp add: n1 n2 n3)
  show "differs_at cfg ''output_format'' (PStr ''id'') \<Longrightarrow>
          differs_at cfg ''output_format'' (PStr ''title'') \<Longrightarrow> cfg ''output_template'' \<noteq> None"
    by (rule f1(4))
  have "d1 ''video_format'' = cfg ''video_format''" by (simp add: d1)
  then have "differs_at d1 ''video_format'' = differs_at cfg ''video_format''"
    by (simp add: differs_at_def fun_eq_iff)
  moreover have "d1 ''second_video_format'' = cfg ''second_video_format''" by (simp add: d1)
  ultimately show "differs_at cfg ''video_format'' (PStr ''0'') \<Longrightarrow> cfg ''second_video_format'' \<noteq> None"
    using f2(3) by simp
  have "d2 ''min_filesize'' = cfg ''min_filesize''" by (simp add: d1 d2)
  then have "truthy_at d2 ''min_filesize'' = truthy_at cfg ''min_filesize''"
    by (simp add: truthy_at_def)
  moreover have "(d2 ''min_filesize_unit'' = None) = (cfg ''min_filesize_unit'' = None)"
    by (simp add: n1 n2)
  ultimately show "truthy_at cfg ''min_filesize'' \<Longrightarrow> cfg ''min_filesize_unit'' \<noteq> None"
    using f3(3) by simp
  have "d3 ''max_filesize'' = cfg ''max_filesize''" by (simp add: d1 d2 d3)
  then have "truthy_at d3 ''max_filesize'' = truthy_at cfg ''max_filesize''"
    by (simp add: truthy_at_def)
  moreover have "(d3 ''max_filesize_unit'' = None) = (cfg ''max_filesize_unit'' = None)"
    by (simp add: n1 n2 n3)
  ultimately show "truthy_at cfg ''max_filesize'' \<Longrightarrow> cfg ''max_filesize_unit'' \<noteq> None"
    using f4(3) by simp
qed

lemma build_savepath_Inl:
  "build_savepath u d = Inl e \<Longrightarrow> (\<exists>k. e = KeyError k \<and> d k = None) \<or>
      (\<exists>v. (d ''save_path'' = Some v \<or> d ''output_template'' = Some v) \<and> \<not> is_str v)"
  by (auto simp: build_savepath_def getitem_def is_str_def Let_def
      split: option.splits pyval.splits if_splits)

lemma build_videoformat_Inl:
  "build_videoformat d = Inl e \<Longrightarrow> (\<exists>k. e = KeyError k \<and> d k = None) \<or>
      (\<exists>v. (d ''video_format'' = Some v \<or> d ''second_video_format'' = Some v) \<and> \<not> is_str v)"
  by (auto simp: build_videoformat_def getitem_def is_str_def str_add_def
      split: option.splits pyval.splits if_splits sum.splits)

lemma build_filesize_Inl:
  "build_filesize u k uk d = Inl e \<Longrightarrow> (\<exists>k. e = KeyError k \<and> d k = None) \<or>
      (\<exists>v. d uk = Some v \<and> \<not> is_str v)"
  by (auto simp: build_filesize_def getitem_def is_str_def str_add_def
      split: option.splits pyval.splits if_splits sum.splits)

lemma not_strings_typed:
  assumes "cfg k = Some v" and "\<not> is_str v"
    and "k \<in> set [''save_path'', ''output_template'', ''video_format'', ''second_video_format'',
               ''min_filesize_unit'', ''max_filesize_unit'', ''cmd_args'']"
  shows "\<not> strings_typed cfg"
  unfolding strings_typed_def list_all_iff using assms by (intro notI) (drule (1) bspec, simp)

text \<open>A failure of the three steps on a configuration with strings where strings are
  expected is a missing key.\<close>

lemma derive_options_Inl:
  assumes "derive_options u cfg = Inl e" and typed: "strings_typed cfg"
  shows "\<exists>k. e = KeyError k \<and> cfg k = None"
proof (cases "build_savepath u cfg")
  case (Inl e1)
  with assms(1) have "e1 = e" by (simp add: derive_options_def)
  with build_savepath_Inl [OF Inl] consider
    (key) k where "e = KeyError k" "cfg k = None"
    | (ty1) v where "cfg ''save_path'' = Some v" "\<not> is_str v"
    | (ty2) v where "cfg ''output_template'' = Some v" "\<not> is_str v"
    by blast
  then show ?thesis
  proof cases
    case key
    then show ?thesis by simp
  next
    case ty1
    then have "\<not> strings_typed cfg" by (rule not_strings_typed) simp
    with typed show ?thesis by contradiction
  next
    case ty2
    then have "\<not> strings_typed cfg" by (rule not_strings_typed) simp
    with typed show ?thesis by contradiction
  qed
next
  case s1: (Inr d1)
  note f1 = build_savepath_Inr [OF s1]
  from f1(1) obtain p where d1: "d1 = cfg(''save_path'' \<mapsto> PStr p)" ..
  have n1: "(d1 x = None) = (cfg x = None)" for x
    using f1(2) by (cases "x = ''save_path''") (simp_all add: d1)
  show ?thesis
  proof (cases "build_videoformat d1")
    case (Inl e2)
    with assms(1) s1 have "e2 = e" by (simp add: derive_options_def)
    with build_videoformat_Inl [OF Inl] consider
      (key) k where "e = KeyError k" "d1 k = None"
      | (ty) v where "d1 ''video_format'' = Some v \<or> d1 ''second_video_format'' = Some v" "\<not> is_str v"
      by blast
    then show ?thesis
    proof cases
      case key
      then show ?thesis by (auto simp: n1)
    next
      case ty
      then have "cfg ''video_format'' = Some v \<or> cfg ''second_video_format'' = Some v"
        by (simp add: d1)
      then have "\<not> strings_typed cfg"
      proof
        assume "cfg ''video_format'' = Some v"
        from this ty(2) show ?thesis by (rule not_strings_typed) simp
      next
        assume "cfg ''second_video_format'' = Some v"
        from this ty(2) show ?thesis by (rule not_strings_typed) simp
      qed
      with typed show ?thesis by contradiction
    qed
  next
    case s2: (Inr d2)
    note f2 = build_videoformat_Inr [OF s2]
    have d2: "x \<noteq> ''video_format'' \<Longrightarrow> d2 x = d1 x" for x
      using f2(1) by (rule upd_or_same(1)) (rule f2(2))
    have n2: "(d2 x = None) = (d1 x = None)" for x
      using f2(1) f2(2) by (rule upd_or_same(2))
    show ?thesis
    proof (cases "build_filesize u ''min_filesize'' ''min_filesize_unit'' d2")
      case (Inl e3)
      with assms(1) s1 s2 have "e3 = e" by (simp add: derive_options_def build_filesizes_def)
      with build_filesize_Inl [OF Inl] consider
        (key) k where "e = KeyError k" "d2 k = None"
        | (ty) v where "d2 ''min_filesize_unit'' = Some v" "\<not> is_str v"
        by blast
      then show ?thesis
      proof cases
        case key
        then show ?thesis by (auto simp: n1 n2)
      next
        case ty
        then have "cfg ''min_filesize_unit'' = Some v" by (simp add: d1 d2)
        from this ty(2) have "\<not> strings_typed cfg" by (rule not_strings_typed) simp
        with typed show ?thesis by contradiction
      qed
    next
      case s3: (Inr d3)
      note f3 = build_filesize_Inr [OF s3]
      have d3: "x \<noteq> ''min_filesize'' \<Longrightarrow> d3 x = d2 x" for x
        using f3(1) by (rule upd_or_same(1)) (rule f3(2))
      have n3: "(d3 x = None) = (d2 x = None)" for x
        using f3(1) f3(2) by (rule upd_or_same(2))
      from assms(1) s1 s2 s3
      have s4: "build_filesize u ''max_filesize'' ''max_filesize_unit'' d3 = Inl e"
        by (simp add: derive_options_def build_filesizes_def)
      from build_filesize_Inl [OF s4] consider
        (key) k where "e = KeyError k" "d3 k = None"
        | (ty) v where "d3 ''max_filesize_unit'' = Some v" "\<not> is_str v"
        by blast
      then show ?thesis
      proof cases
        case key
        then show ?thesis by (auto simp: n1 n2 n3)
      next
        case ty
        then have "cfg ''max_filesize_unit'' = Some v" by (simp add: d1 d2 d3)
        from this ty(2) have "\<not> strings_typed cfg" by (rule not_strings_typed) simp
        with typed show ?thesis by contradiction
      qed
    qed
  qed
qed

lemma lookup_all_Inl:
  "lookup_all d rs = Inl e \<Longrightarrow> \<exists>k. e = KeyError k \<and> d k = None \<and> k \<in> set rs"
  by (induction rs) (auto simp: getitem_def split: option.splits sum.splits)

lemma lookup_all_Inr:
  "lookup_all d rs = Inr vs \<Longrightarrow> r \<in> set rs \<Longrightarrow> d r \<noteq> None"
  by (induction rs arbitrary: vs) (auto simp: getitem_def split: option.splits sum.splits)

lemma check_requirements_Inl:
  "check_requirements opt d = Inl e \<Longrightarrow> \<exists>k. e = KeyError k \<and> d k = None"
  by (auto simp: check_requirements_def split: option.splits sum.splits dest: lookup_all_Inl)

lemma check_requirements_Inr:
  "check_requirements opt d = Inr b \<Longrightarrow> requirements opt = Some reqs \<Longrightarrow> r \<in> set reqs
     \<Longrightarrow> d r \<noteq> None"
  by (auto simp: check_requirements_def split: option.splits sum.splits dest: lookup_all_Inr)

lemma parse_options_Inl:
  "parse_options u d opts acc = Inl e \<Longrightarrow> \<exists>k. e = KeyError k \<and> d k = None"
proof (induction opts arbitrary: acc)
  case Nil
  then show ?case by simp
next
  case (Cons opt opts)
  then show ?case
    by (auto simp: getitem_def split: sum.splits bool.splits option.splits if_splits
        dest: check_requirements_Inl)
qed

text \<open>A walk that succeeds has found every requirement of every entry, and the name of
  every entry whose requirement check passes.\<close>

lemma parse_options_Inr_keys:
  assumes "parse_options u d opts acc = Inr l" and "opt \<in> set opts"
  shows "requirements opt = Some reqs \<Longrightarrow> r \<in> set reqs \<Longrightarrow> d r \<noteq> None"
    and "requirement_passes opt d \<Longrightarrow> d (name opt) \<noteq> None"
  using assms
proof (induction opts arbitrary: acc)
  case Nil
  { case 1 then show ?case by simp }
  { case 2 then show ?case by simp }
next
  case (Cons o1 opts)
  {
    case 1
    then show ?case
      by (auto simp: getitem_def split: sum.splits bool.splits option.splits if_splits
        dest: check_requirements_Inr Cons.IH(1))
  }
  {
    case 2
    then show ?case
      by (auto simp: getitem_def split: sum.splits bool.splits option.splits if_splits
        dest: check_requirements_passes Cons.IH(2))
  }
qed

lemma parse_cmd_args_Inl:
  "parse_cmd_args d l = Inl e \<Longrightarrow> (e = KeyError ''cmd_args'' \<and> d ''cmd_args'' = None) \<or>
     (\<exists>v. d ''cmd_args'' = Some v \<and> \<not> is_str v)"
  by (auto simp: parse_cmd_args_def getitem_def is_str_def split: option.splits pyval.splits)

lemma parse_Inl:
  assumes "parse u cfg = Inl e" and typed: "strings_typed cfg"
  shows "\<exists>k. e = KeyError k \<and> cfg k = None"
proof (cases "derive_options u cfg")
  case (Inl e1)
  with assms(1) have "e1 = e" by (simp add: parse_unfold)
  with Inl typed show ?thesis by (auto dest: derive_options_Inl)
next
  case d: (Inr d)
  show ?thesis
  proof (cases "parse_options u d ydl_options [''--newline'']")
    case (Inl e2)
    with assms(1) d have "e2 = e" by (simp add: parse_unfold)
    with parse_options_Inl [OF Inl] obtain k where "e = KeyError k" "d k = None" by blast
    with derive_dom [OF d, of k] show ?thesis by simp
  next
    case (Inr l)
    with assms(1) d have c: "parse_cmd_args d l = Inl e" by (simp add: parse_unfold)
    from parse_cmd_args_Inl [OF c] show ?thesis
    proof
      assume "e = KeyError ''cmd_args'' \<and> d ''cmd_args'' = None"
      with derive_dom [OF d, of "''cmd_args''"] show ?thesis by simp
    next
      assume "\<exists>v. d ''cmd_args'' = Some v \<and> \<not> is_str v"
      then obtain v where v: "d ''cmd_args'' = Some v" "\<not> is_str v" by blast
      have "d ''cmd_args'' = cfg ''cmd_args''"
        by (rule derive_same [OF d]) (simp add: modified_keys_def)
      with v have "cfg ''cmd_args'' = Some v" by simp
      from this v(2) have "\<not> strings_typed cfg" by (rule not_strings_typed) simp
      with typed show ?thesis by contradiction
    qed
  qed
qed

lemma ydl_requirements_unmodified:
  "opt \<in> set ydl_options \<Longrightarrow> requirements opt = Some reqs \<Longrightarrow> r \<in> set reqs
     \<Longrightarrow> r \<notin> modified_keys"
  by (auto simp: ydl_options_def mk_option_def mk_option_req_def modified_keys_def)

lemma requirement_passes_cong:
  assumes "\<And>reqs r. requirements opt = Some reqs \<Longrightarrow> r \<in> set reqs \<Longrightarrow> d r = d' r"
  shows "requirement_passes opt d = requirement_passes opt d'"
proof (cases "requirements opt")
  case None
  then show ?thesis by (simp add: requirement_passes_def)
next
  case (Some reqs)
  with assms have "\<And>r. r \<in> set reqs \<Longrightarrow> truthy_at d r = truthy_at d' r"
    by (simp add: truthy_at_def)
  with Some show ?thesis by (simp add: requirement_passes_def list_ex_iff)
qed

lemma requirement_passes_derived:
  assumes "derive_options u cfg = Inr d" and "opt \<in> set ydl_options"
  shows "requirement_passes opt d = requirement_passes opt cfg"
  by (rule requirement_passes_cong)
     (rule derive_same [OF assms(1)], rule ydl_requirements_unmodified [OF assms(2)])

lemma parse_Inr_keys:
  assumes "parse u cfg = Inr toks" and "k \<in> set (keys_read cfg)"
  shows "cfg k \<noteq> None"
proof -
  from assms(1) obtain d l where d: "derive_options u cfg = Inr d"
    and l: "parse_options u d ydl_options [''--newline''] = Inr l"
    and c: "parse_cmd_args d l = Inr toks"
    by (auto simp: parse_unfold split: sum.splits)
  note r = derive_reads [OF d]
  from parse_cmd_args_Inr [OF c] have "d ''cmd_args'' \<noteq> None" by auto
  then have cmd: "cfg ''cmd_args'' \<noteq> None" by (simp add: derive_dom [OF d])
  from assms(2) show ?thesis
    unfolding keys_read_def set_append Un_iff
  proof (elim disjE)
    assume "k \<in> set [''save_path'', ''output_format'', ''video_format'', ''min_filesize'',
                     ''max_filesize'', ''cmd_args'']"
    with r(1-5) cmd show ?thesis by auto
  next
    assume "k \<in> set (if differs_at cfg ''output_format'' (PStr ''id'')
                          \<and> differs_at cfg ''output_format'' (PStr ''title'')
                       then [''output_template''] else [])"
    with r(6) show ?thesis by (simp split: if_splits)
  next
    assume "k \<in> set (if differs_at cfg ''video_format'' (PStr ''0'')
                       then [''second_video_format''] else [])"
    with r(7) show ?thesis by (simp split: if_splits)
  next
    assume "k \<in> set (if truthy_at cfg ''min_filesize'' then [''min_filesize_unit''] else [])"
    with r(8) show ?thesis by (simp split: if_splits)
  next
    assume "k \<in> set (if truthy_at cfg ''max_filesize'' then [''max_filesize_unit''] else [])"
    with r(9) show ?thesis by (simp split: if_splits)
  next
    assume "k \<in> set (concat (map (\<lambda>opt. case requirements opt of None \<Rightarrow> [] | Some reqs \<Rightarrow> reqs)
                                ydl_options))"
    then obtain opt where opt: "opt \<in> set ydl_options"
      and k: "k \<in> set (case requirements opt of None \<Rightarrow> [] | Some reqs \<Rightarrow> reqs)"
      by auto
    from k obtain reqs where "requirements opt = Some reqs" "k \<in> set reqs"
      by (cases "requirements opt") simp_all
    from parse_options_Inr_keys(1) [OF l opt this] have "d k \<noteq> None" .
    then show ?thesis by (simp add: derive_dom [OF d])
  next
    assume "k \<in> set (map name (filter (\<lambda>opt. requirement_passes opt cfg) ydl_options))"
    then obtain opt where opt: "opt \<in> set ydl_options" and p: "requirement_passes opt cfg"
      and k: "k = name opt"
      by auto
    from p have "requirement_passes opt d"
      by (simp add: requirement_passes_derived [OF d opt])
    from parse_options_Inr_keys(2) [OF l opt this] k have "d k \<noteq> None" by simp
    then show ?thesis by (simp add: derive_dom [OF d])
  qed
qed

lemma parse_obj_fst: "a < length h \<Longrightarrow> fst (parse_obj u h a) = parse u (h ! a)"
  using parse_obj_eq [of a h u] by (auto simp: parse_unfold)

lemma build_savepath_upd:
  assumes "k \<noteq> ''save_path''" "k \<noteq> ''output_format''" "k \<noteq> ''output_template''"
  shows "build_savepath u (d(k := x)) = upd_result k x (build_savepath u d)"
  using assms
  by (auto simp: build_savepath_def getitem_def upd_result_def Let_def fun_upd_twist
      split: option.splits pyval.splits)

lemma build_videoformat_upd:
  assumes "k \<noteq> ''video_format''" "k \<noteq> ''second_video_format''"
  shows "build_videoformat (d(k := x)) = upd_result k x (build_videoformat d)"
  using assms
  by (auto simp: build_videoformat_def getitem_def upd_result_def str_add_def fun_upd_twist
      split: option.splits pyval.splits)

lemma build_filesize_upd:
  assumes "k \<noteq> key" "k \<noteq> uk"
  shows "build_filesize u key uk (d(k := x)) = upd_result k x (build_filesize u key uk d)"
  using assms
  by (auto simp: build_filesize_def getitem_def upd_result_def str_add_def fun_upd_twist
      split: option.splits pyval.splits)

lemma derive_options_upd:
  assumes "k \<notin> build_keys"
  shows "derive_options u (cfg(k := x)) = upd_result k x (derive_options u cfg)"
proof -
  from assms have k: "k \<noteq> ''save_path''" "k \<noteq> ''output_format''" "k \<noteq> ''output_template''"
    "k \<noteq> ''video_format''" "k \<noteq> ''second_video_format''" "k \<noteq> ''min_filesize''"
    "k \<noteq> ''min_filesize_unit''" "k \<noteq> ''max_filesize''" "k \<noteq> ''max_filesize_unit''"
    by (simp_all add: build_keys_def)
  show ?thesis
    by (simp add: derive_options_def build_filesizes_def build_savepath_upd k
        build_videoformat_upd build_filesize_upd upd_result_def split: sum.splits)
qed

lemma lookup_all_upd:
  "k \<notin> set rs \<Longrightarrow> lookup_all (d(k := x)) rs = lookup_all d rs"
  by (induction rs) (auto simp: getitem_def split: option.splits sum.splits)

lemma check_requirements_upd:
  "(\<And>reqs. requirements opt = Some reqs \<Longrightarrow> k \<notin> set reqs)
     \<Longrightarrow> check_requirements opt (d(k := x)) = check_requirements opt d"
  by (cases "requirements opt") (simp_all add: check_requirements_def lookup_all_upd)

lemma parse_options_upd:
  assumes "\<And>opt reqs. opt \<in> set opts \<Longrightarrow> requirements opt = Some reqs \<Longrightarrow> k \<notin> set reqs"
    and "\<And>opt. opt \<in> set opts \<Longrightarrow> name opt = k \<Longrightarrow> check_requirements opt d = Inr False"
  shows "parse_options u (d(k := x)) opts acc = parse_options u d opts acc"
  using assms
proof (induction opts arbitrary: acc)
  case Nil
  show ?case by simp
next
  case (Cons opt opts)
  have c: "check_requirements opt (d(k := x)) = check_requirements opt d"
    by (rule check_requirements_upd) (rule Cons.prems(1), simp_all)
  have ih: "parse_options u (d(k := x)) opts acc' = parse_options u d opts acc'" for acc'
  proof (rule Cons.IH)
    fix o' reqs assume "o' \<in> set opts" "requirements o' = Some reqs"
    then show "k \<notin> set reqs" using Cons.prems(1) [of o' reqs] by simp
  next
    fix o' assume "o' \<in> set opts" "name o' = k"
    then show "check_requirements o' d = Inr False" using Cons.prems(2) [of o'] by simp
  qed
  show ?case
  proof (cases "name opt = k")
    case True
    then have "check_requirements opt d = Inr False" by (intro Cons.prems(2)) simp_all
    then show ?thesis by (simp only: parse_options.simps c ih sum.case bool.case)
  next
    case False
    then have "getitem (d(k := x)) (name opt) = getitem d (name opt)" by (simp add: getitem_def)
    then show ?thesis by (simp only: parse_options.simps c ih)
  qed
qed

lemma parse_cmd_args_upd:
  "k \<noteq> ''cmd_args'' \<Longrightarrow> parse_cmd_args (d(k := x)) l = parse_cmd_args d l"
  by (simp add: parse_cmd_args_def getitem_def)

lemma check_requirements_cong:
  assumes "\<And>reqs r. requirements opt = Some reqs \<Longrightarrow> r \<in> set reqs \<Longrightarrow> d r = d' r"
  shows "check_requirements opt d = check_requirements opt d'"
proof (cases "requirements opt")
  case None
  then show ?thesis by (simp add: check_requirements_def)
next
  case (Some reqs)
  with assms have "\<And>r. r \<in> set reqs \<Longrightarrow> d r = d' r" by simp
  then have "lookup_all d reqs = lookup_all d' reqs"
    by (induction reqs) (auto simp: getitem_def split: option.splits sum.splits)
  with Some show ?thesis by (simp add: check_requirements_def)
qed

lemma check_requirements_derived:
  assumes "derive_options u cfg = Inr d" and "opt \<in> set ydl_options"
  shows "check_requirements opt d = check_requirements opt cfg"
  by (rule check_requirements_cong)
     (rule derive_same [OF assms(1)], rule ydl_requirements_unmodified [OF assms(2)])

text \<open>Facts about the schema: the gated entries, and the keys that are requirements.\<close>

lemma ydl_gated_names:
  assumes "opt \<in> set ydl_options" and "requirements opt \<noteq> None"
  shows "name opt \<in> {''embed_subs'', ''audio_format'', ''subs_lang'', ''audio_quality''}"
  using assms by (auto simp: ydl_options_def mk_option_def mk_option_req_def)

lemma ydl_requirement_keys:
  assumes "opt \<in> set ydl_options" and "requirements opt = Some reqs"
  shows "set reqs \<subseteq> {''write_auto_subs'', ''write_subs'', ''to_audio''}"
  using assms by (auto simp: ydl_options_def mk_option_def mk_option_req_def)

lemma ydl_names_distinct: "distinct (map name ydl_options)"
  by (simp add: ydl_options_def mk_option_def mk_option_req_def)

lemma ydl_gated:
  assumes "opt \<in> set ydl_options" and "requirements opt \<noteq> None"
  shows "name opt \<notin> build_keys" and "name opt \<noteq> ''cmd_args''"
    and "\<And>o' reqs. o' \<in> set ydl_options \<Longrightarrow> requirements o' = Some reqs \<Longrightarrow> name opt \<notin> set reqs"
    and "\<And>o'. o' \<in> set ydl_options \<Longrightarrow> name o' = name opt \<Longrightarrow> o' = opt"
proof -
  note n = ydl_gated_names [OF assms]
  from n show "name opt \<notin> build_keys" by (auto simp: build_keys_def)
  from n show "name opt \<noteq> ''cmd_args''" by auto
  show "name opt \<notin> set reqs" if "o' \<in> set ydl_options" "requirements o' = Some reqs" for o' reqs
    using ydl_requirement_keys [OF that] n by auto
  show "o' = opt" if "o' \<in> set ydl_options" "name o' = name opt" for o'
    using ydl_names_distinct that assms(1) by (auto simp: distinct_map inj_on_def)
qed

lemma lookup_all_total:
  "(\<And>r. r \<in> set rs \<Longrightarrow> d r \<noteq> None) \<Longrightarrow> \<exists>vs. lookup_all d rs = Inr vs"
  by (induction rs) (auto simp: getitem_def split: option.splits sum.splits)

lemma check_requirements_total:
  assumes "\<And>reqs r. requirements opt = Some reqs \<Longrightarrow> r \<in> set reqs \<Longrightarrow> d r \<noteq> None"
  shows "check_requirements opt d = Inr (requirement_passes opt d)"
proof (cases "requirements opt")
  case None
  then show ?thesis by (simp add: check_requirements_def requirement_passes_def)
next
  case (Some reqs)
  with assms have "\<And>r. r \<in> set reqs \<Longrightarrow> d r \<noteq> None" by simp
  then have "\<exists>vs. lookup_all d reqs = Inr vs" by (rule lookup_all_total)
  then obtain vs where "lookup_all d reqs = Inr vs" ..
  with Some show ?thesis
    by (simp add: check_requirements_def requirement_passes_def lookup_all_ex)
qed

lemma parse_options_succeeds:
  assumes "\<And>opt. opt \<in> set opts \<Longrightarrow> d (name opt) \<noteq> None"
    and "\<And>opt reqs r. opt \<in> set opts \<Longrightarrow> requirements opt = Some reqs \<Longrightarrow> r \<in> set reqs
           \<Longrightarrow> d r \<noteq> None"
  shows "\<exists>l. parse_options u d opts acc = Inr l"
  using assms
proof (induction opts arbitrary: acc)
  case Nil
  show ?case by simp
next
  case (Cons opt opts)
  have c: "check_requirements opt d = Inr (requirement_passes opt d)"
    by (rule check_requirements_total) (rule Cons.prems(2) [of opt], simp_all)
  from Cons.prems(1) [of opt] obtain v where v: "d (name opt) = Some v" by auto
  have ih: "\<exists>l. parse_options u d opts acc' = Inr l" for acc'
  proof (rule Cons.IH)
    fix o' assume "o' \<in> set opts"
    then show "d (name o') \<noteq> None" using Cons.prems(1) [of o'] by simp
  next
    fix o' reqs r assume "o' \<in> set opts" "requirements o' = Some reqs" "r \<in> set reqs"
    then show "d r \<noteq> None" using Cons.prems(2) [of o' reqs r] by simp
  qed
  show ?case
    by (cases "requirement_passes opt d"; cases "py_eq v (default_value opt)")
       (simp_all only: parse_options.simps c v getitem_simps sum.case bool.case if_True if_False
          not_True_eq_False not_False_eq_True ih)
qed

lemma py_eq_PStr: "py_eq v (PStr s) \<Longrightarrow> v = PStr s"
  by (cases v) simp_all

lemma py_eq_zero_falsy: "py_eq v (PInt 0) \<Longrightarrow> \<not> truthy v"
  by (cases v) (simp_all split: if_splits)

lemma schema_defaults_value:
  assumes "schema_defaults cfg" and "opt \<in> set ydl_options"
  shows "\<exists>v. cfg (name opt) = Some v \<and> py_eq v (default_value opt)"
  using assms by (auto simp: schema_defaults_def list_all_iff split: option.splits)

lemma schema_defaults_bound:
  assumes "schema_defaults cfg" and "k \<in> name ` set ydl_options"
  shows "cfg k \<noteq> None"
  using assms schema_defaults_value by fastforce

lemma concat_map_filter:
  "(\<And>x. x \<in> set xs \<Longrightarrow> \<not> P x \<Longrightarrow> f x = []) \<Longrightarrow> concat (map f xs) = concat (map f (filter P xs))"
  by (induction xs) auto

lemma ydl_save_path_entry:
  "filter (\<lambda>opt. name opt = ''save_path'') ydl_options = [mk_option ''save_path'' ''-o'' (PStr '''')]"
  by (simp add: ydl_options_def mk_option_def mk_option_req_def)

lemma ydl_entries:
  "mk_option ''save_path'' ''-o'' (PStr '''') \<in> set ydl_options"
  "mk_option ''video_format'' ''-f'' (PStr ''0'') \<in> set ydl_options"
  "mk_option ''min_filesize'' ''--min-filesize'' (PInt 0) \<in> set ydl_options"
  "mk_option ''max_filesize'' ''--max-filesize'' (PInt 0) \<in> set ydl_options"
  by (simp_all add: ydl_options_def)

text \<open>With every schema option at its default, the steps after the save path change nothing.\<close>

lemma derive_options_defaults:
  assumes sd: "schema_defaults cfg" and bs: "build_savepath u cfg = Inr d"
  shows "derive_options u cfg = Inr d"
    and "\<exists>p. d = cfg(''save_path'' \<mapsto> PStr p)"
proof -
  from build_savepath_Inr(1) [OF bs] obtain p where d: "d = cfg(''save_path'' \<mapsto> PStr p)" ..
  then show "\<exists>p. d = cfg(''save_path'' \<mapsto> PStr p)" ..
  from schema_defaults_value [OF sd ydl_entries(2)]
  have vf: "cfg ''video_format'' = Some (PStr ''0'')"
    by (auto simp: mk_option_def dest: py_eq_PStr)
  from schema_defaults_value [OF sd ydl_entries(3)]
  obtain mn where mn: "cfg ''min_filesize'' = Some mn" "\<not> truthy mn"
    by (auto simp: mk_option_def dest: py_eq_zero_falsy)
  from schema_defaults_value [OF sd ydl_entries(4)]
  obtain mx where mx: "cfg ''max_filesize'' = Some mx" "\<not> truthy mx"
    by (auto simp: mk_option_def dest: py_eq_zero_falsy)
  have "build_videoformat d = Inr d"
    by (simp add: build_videoformat_def d vf)
  moreover have "build_filesize u ''min_filesize'' ''min_filesize_unit'' d = Inr d"
    by (simp add: build_filesize_def d mn)
  moreover have "build_filesize u ''max_filesize'' ''max_filesize_unit'' d = Inr d"
    by (simp add: build_filesize_def d mx)
  ultimately show "derive_options u cfg = Inr d"
    by (simp add: derive_options_def build_filesizes_def bs)
qed

lemma contributions_defaults:
  assumes sd: "schema_defaults cfg" and d: "d = cfg(''save_path'' \<mapsto> PStr p)"
  shows "concat (map (contribution u d) ydl_options)
           = (if p = [] then [] else [''-o'', to_string u (PStr p)])"
proof -
  have "contribution u d opt = []" if "opt \<in> set ydl_options" "name opt \<noteq> ''save_path''" for opt
  proof -
    from schema_defaults_value [OF sd that(1)] obtain v
      where "cfg (name opt) = Some v" "py_eq v (default_value opt)" by blast
    with that(2) show ?thesis by (simp add: contribution_def d)
  qed
  then have "concat (map (contribution u d) ydl_options)
      = concat (map (contribution u d) (filter (\<lambda>opt. name opt = ''save_path'') ydl_options))"
    by (intro concat_map_filter) simp
  also have "\<dots> = contribution u d (mk_option ''save_path'' ''-o'' (PStr ''''))"
    by (simp add: ydl_save_path_entry)
  also have "\<dots> = (if p = [] then [] else [''-o'', to_string u (PStr p)])"
    by (simp add: contribution_def mk_option_def d requirement_passes_def is_boolean_def)
  finally show ?thesis .
qed

lemma embed_subs_entry:
  "ydl_options ! 22 = mk_option_req ''embed_subs'' ''--embed-subs'' (PBool False)
                        [''write_auto_subs'', ''write_subs'']"
  "ydl_options ! 22 \<in> set ydl_options"
  by (simp_all add: ydl_options_def)

section \<open>The model of the download item on the tests of the repository\<close>

text \<open>\<open>test_update_stats\<close>: the lists, the sizes and the snapshot after the three reports.\<close>

lemma test_update_stats:
  "update_all format_bytes test_item [report_mp4, report_second_file, report_progress] =
     Inr \<lparr>url = ''url'', options = [''-f'', ''flv''], path = ''/home/user'',
          filenames = [''somefilename'', ''someotherfilename''],
          extensions = [''.mp4'', ''.m4a''], filesizes = [9909043.20, 2097152.00],
          stage = Active,
          progress_stats = \<lparr>filename = ''someotherfilename'', extension = ''.m4a'',
            filesize = ''2.00MiB'', percent = ''65.0%'', speed = ''200.00KiB/s'',
            eta = ''00:38'', status = ''Downloading'', playlist_size = ''10'',
            playlist_index = ''2''\<rparr>\<rparr>"
  by code_simp

text \<open>\<open>test_calc_post_proc_size\<close>: the snapshot after the three reports.\<close>

lemma test_calc_post_proc_size:
  "map_sum id progress_stats
     (update_all format_bytes test_item [report_webm, report_m4a, report_post_processing]) =
     Inr \<lparr>filename = ''file'', extension = ''.webm'', filesize = ''13.45MiB'',
          percent = ''100%'', speed = ''-'', eta = ''-'', status = ''Post Processing'',
          playlist_size = '''', playlist_index = ''''\<rparr>"
  by code_simp

text \<open>\<open>test_update_stats_invalid_input\<close>\<close>

lemma test_update_stats_invalid_input:
  "update_stats format_bytes test_item NotADict = Inl MalformedInput"
  by (simp add: update_stats_def)

text \<open>\<open>test_set_stage\<close>\<close>

lemma test_set_stage:
  "map (\<lambda>st. stage (set_stage st test_item)) ACTIVE_STAGES = [Active, Active, Active]"
  "map (\<lambda>st. stage (set_stage st test_item)) COMPLETED_STAGES = [Completed, Completed, Completed]"
  "map (\<lambda>st. stage (set_stage st test_item)) ERROR_STAGES = [Error, Error, Error]"
  by code_simp+

section \<open>The claims about the option schema and its walk\<close>

text \<open>
  C1. Whenever \<open>parse\<close> returns a token list, the list is the leading token
  \<open>--newline\<close>, then the contributions of the schema entries in declaration order,
  then the whitespace-separated tokens of \<open>cmd_args\<close>. An entry contributes tokens
  iff its requirement check passes and its value in the derived dictionary differs from
  its default value; it then contributes its flag, followed by the string form of the
  value only when the default value is not a boolean.
\<close>

theorem parse_walks_schema:
  assumes "parse u cfg = Inr toks"
  shows "\<exists>d s. derive_options u cfg = Inr d \<and> d ''cmd_args'' = Some (PStr s) \<and>
           toks = ''--newline'' # concat (map (contribution u d) ydl_options) @ py_split s"
  using assms by (rule parse_Inr)

theorem parse_walks_schema_witness:
  "parse utils_plain cfg_busy =
     Inr [''--newline'', ''-R'', ''5'', ''--min-filesize'', ''10M'', ''--write-sub'',
          ''-o'', ''/home/user/%(title)s.%(ext)s'', ''--embed-subs'', ''--no-mtime'', ''-v'']
   \<and> (\<exists>d s. derive_options utils_plain cfg_busy = Inr d \<and> d ''cmd_args'' = Some (PStr s) \<and>
         [''--newline'', ''-R'', ''5'', ''--min-filesize'', ''10M'', ''--write-sub'',
          ''-o'', ''/home/user/%(title)s.%(ext)s'', ''--embed-subs'', ''--no-mtime'', ''-v'']
         = ''--newline'' # concat (map (contribution utils_plain d) ydl_options) @ py_split s)"
  using parse_walks_schema [OF parse_cfg_busy] parse_cfg_busy by simp

text \<open>
  C9. The claim counts 30 entries in the schema. \<open>__init__\<close> declares 28: the list
  has 28 entries and not 30.
\<close>

theorem ydl_options_not_30: "length ydl_options \<noteq> 30"
  by (simp add: ydl_options_def)

text \<open>C9, amended. The option schema that \<open>parse\<close> walks has exactly 28 entries.\<close>

theorem ydl_options_length: "length ydl_options = 28"
  by (simp add: ydl_options_def)

text \<open>
  C6. The claim counts every auxiliary key of the save-path, video-format and filesize
  steps among the keys whose absence makes \<open>parse\<close> fail. \<open>parse\<close> reads
  \<open>min_filesize_unit\<close> only for a truthy \<open>min_filesize\<close>: a configuration with the
  default threshold and no \<open>min_filesize_unit\<close> compiles. And a configuration
  that lacks \<open>cmd_args\<close> fails with \<open>TypeError\<close>, not with \<open>KeyError\<close>, when its
  \<open>video_format\<close> is an integer: the failing concatenation comes first.
\<close>

theorem optional_unit_counterexample:
  "cfg_no_unit ''min_filesize_unit'' = None
   \<and> parse utils_plain cfg_no_unit = Inr [''--newline'', ''-o'', ''/home/user/%(title)s.%(ext)s'']
   \<and> cfg_int_format ''cmd_args'' = None
   \<and> parse utils_plain cfg_int_format = Inl TypeError"
  by code_simp

text \<open>
  C6, amended. When the keys that \<open>parse\<close> uses as strings hold strings where they are
  bound, and the configuration lacks a key that the call looks up on its path
  (\<open>keys_read\<close>: \<open>output_template\<close> only for an output format other than \<open>id\<close> and
  \<open>title\<close>, \<open>second_video_format\<close> only for a video format other than \<open>'0'\<close>, a
  filesize unit only for a truthy threshold), \<open>parse\<close> raises \<open>KeyError\<close> for a key
  the configuration lacks.
\<close>

theorem parse_missing_key:
  assumes "strings_typed cfg" and "k \<in> set (keys_read cfg)" and "cfg k = None"
  shows "\<exists>k'. parse u cfg = Inl (KeyError k') \<and> cfg k' = None"
proof (cases "parse u cfg")
  case (Inl e)
  from parse_Inl [OF Inl assms(1)] Inl show ?thesis by auto
next
  case (Inr toks)
  from parse_Inr_keys [OF Inr assms(2)] assms(3) show ?thesis by contradiction
qed

theorem parse_missing_key_witness:
  "strings_typed cfg_unit_needed \<and> ''min_filesize_unit'' \<in> set (keys_read cfg_unit_needed)
   \<and> cfg_unit_needed ''min_filesize_unit'' = None
   \<and> parse utils_plain cfg_unit_needed = Inl (KeyError ''min_filesize_unit'')
   \<and> (\<exists>k'. parse utils_plain cfg_unit_needed = Inl (KeyError k') \<and> cfg_unit_needed k' = None)"
proof -
  have t: "strings_typed cfg_unit_needed" by code_simp
  have k: "''min_filesize_unit'' \<in> set (keys_read cfg_unit_needed)" by code_simp
  have n: "cfg_unit_needed ''min_filesize_unit'' = None" by code_simp
  have p: "parse utils_plain cfg_unit_needed = Inl (KeyError ''min_filesize_unit'')" by code_simp
  from parse_missing_key [OF t k n, of utils_plain] t k n p show ?thesis by simp
qed

section \<open>The claims about the store\<close>

text \<open>
  C7. \<open>parse\<close> is deterministic and keeps no state between calls: when two references
  hold dictionaries with the same bindings, a call on the second, run in the store the
  call on the first has left, returns what the first call returned.
\<close>

theorem parse_twice:
  assumes "a1 < length h" and "a2 < length h" and "h ! a1 = h ! a2"
  shows "fst (parse_obj u (snd (parse_obj u h a1)) a2) = fst (parse_obj u h a1)"
proof -
  from parse_obj_eq [OF assms(1), of u] obtain d where s: "snd (parse_obj u h a1) = h @ [d]"
    by auto
  with assms(2) have "fst (parse_obj u (snd (parse_obj u h a1)) a2) = parse u ((h @ [d]) ! a2)"
    by (simp add: parse_obj_fst)
  also from assms have "\<dots> = parse u (h ! a1)" by (simp add: nth_append)
  also from assms(1) have "\<dots> = fst (parse_obj u h a1)" by (simp add: parse_obj_fst)
  finally show ?thesis .
qed

theorem parse_twice_witness:
  "fst (parse_obj utils_plain (snd (parse_obj utils_plain [cfg_busy, cfg_busy] 0)) 1)
     = fst (parse_obj utils_plain [cfg_busy, cfg_busy] 0)
   \<and> fst (parse_obj utils_plain [cfg_busy, cfg_busy] 0) =
       Inr [''--newline'', ''-R'', ''5'', ''--min-filesize'', ''10M'', ''--write-sub'',
            ''-o'', ''/home/user/%(title)s.%(ext)s'', ''--embed-subs'', ''--no-mtime'', ''-v'']"
  using parse_twice [of 0 "[cfg_busy, cfg_busy]" 1 utils_plain] parse_cfg_busy
  by (simp add: parse_obj_fst)

text \<open>
  C8. \<open>parse\<close> does not change the dictionary it is given: the store after the call is
  the store before it, followed by the one dictionary the call allocated (the copy the
  three derivations assign to), so the argument, and every other dictionary that
  existed, has the bindings it had.
\<close>

theorem parse_keeps_input:
  assumes "a < length h"
  shows "(\<exists>d. snd (parse_obj u h a) = h @ [d]) \<and> snd (parse_obj u h a) ! a = h ! a"
proof -
  from parse_obj_eq [OF assms, of u] obtain d r where "parse_obj u h a = (r, h @ [d])" by blast
  then have "snd (parse_obj u h a) = h @ [d]" by simp
  with assms show ?thesis by (simp add: nth_append)
qed

theorem parse_keeps_input_witness:
  "(\<exists>d. snd (parse_obj utils_plain [cfg_busy] 0) = [cfg_busy] @ [d])
   \<and> snd (parse_obj utils_plain [cfg_busy] 0) ! 0 = cfg_busy
   \<and> (snd (parse_obj utils_plain [cfg_busy] 0) ! 0) ''save_path'' = Some (PStr ''/home/user'')
   \<and> (snd (parse_obj utils_plain [cfg_busy] 0) ! 1) ''save_path''
        = Some (PStr ''/home/user/%(title)s.%(ext)s'')"
proof -
  have "(snd (parse_obj utils_plain [cfg_busy] 0) ! 0) ''save_path'' = Some (PStr ''/home/user'')"
    by code_simp
  moreover have "(snd (parse_obj utils_plain [cfg_busy] 0) ! 1) ''save_path''
        = Some (PStr ''/home/user/%(title)s.%(ext)s'')"
    by code_simp
  ultimately show ?thesis using parse_keeps_input [of 0 "[cfg_busy]" utils_plain] by simp
qed

section \<open>The claims about particular configurations\<close>

text \<open>
  C2. The claim names \<open>write_all_subs\<close> as a requirement of the \<open>embed_subs\<close>
  entry. The entry requires \<open>write_auto_subs\<close> or \<open>write_subs\<close>: with only
  \<open>write_all_subs\<close> enabled its requirement check fails and \<open>parse\<close> emits no
  \<open>--embed-subs\<close>.
\<close>

theorem all_subs_counterexample:
  "cfg_all_subs ''write_all_subs'' = Some (PBool True) \<and> cfg_all_subs ''embed_subs'' = Some (PBool True)
   \<and> check_requirements (ydl_options ! 22) cfg_all_subs = Inr False
   \<and> parse utils_plain cfg_all_subs
       = Inr [''--newline'', ''--all-subs'', ''-o'', ''/home/user/%(title)s.%(ext)s'']"
  by code_simp

text \<open>
  C2, amended. The requirement check of the \<open>embed_subs\<close> entry succeeds whenever
  \<open>write_auto_subs\<close> and \<open>write_subs\<close> are bound and one of them is truthy; the
  token list \<open>parse\<close> returns for such a configuration with \<open>embed_subs\<close> bound
  to a value other than \<open>False\<close> holds the flag \<open>--embed-subs\<close>.
\<close>

theorem embed_subs_requirement:
  assumes "cfg ''write_auto_subs'' = Some a" and "cfg ''write_subs'' = Some b"
    and "truthy a \<or> truthy b"
  shows "name (ydl_options ! 22) = ''embed_subs'' \<and> flag (ydl_options ! 22) = ''--embed-subs''
       \<and> check_requirements (ydl_options ! 22) cfg = Inr True
       \<and> (\<forall>v toks. cfg ''embed_subs'' = Some v \<and> \<not> py_eq v (PBool False)
              \<and> parse u cfg = Inr toks \<longrightarrow> ''--embed-subs'' \<in> set toks)"
proof (intro conjI allI impI)
  let ?e = "ydl_options ! 22"
  show "name ?e = ''embed_subs''" "flag ?e = ''--embed-subs''"
    by (simp_all add: embed_subs_entry(1) mk_option_req_def)
  from assms show c: "check_requirements ?e cfg = Inr True"
    by (auto simp: embed_subs_entry(1) mk_option_req_def check_requirements_def)
  fix v toks
  assume h: "cfg ''embed_subs'' = Some v \<and> \<not> py_eq v (PBool False) \<and> parse u cfg = Inr toks"
  then have p: "parse u cfg = Inr toks" by simp
  from parse_Inr [OF p] obtain d s where d: "derive_options u cfg = Inr d"
    and t: "toks = ''--newline'' # concat (map (contribution u d) ydl_options) @ py_split s"
    by blast
  have "check_requirements ?e d = Inr True"
    by (simp add: check_requirements_derived [OF d embed_subs_entry(2)] c)
  then have rp: "requirement_passes ?e d" by (auto dest: check_requirements_passes)
  have "d ''embed_subs'' = cfg ''embed_subs''"
    by (rule derive_same [OF d]) (simp add: modified_keys_def)
  with h have v: "d (name ?e) = Some v" "\<not> py_eq v (default_value ?e)"
    by (simp_all add: embed_subs_entry(1) mk_option_req_def)
  with rp have "contribution u d ?e = [''--embed-subs'']"
    by (simp add: contribution_def)
       (simp add: embed_subs_entry(1) mk_option_req_def is_boolean_def)
  then have "''--embed-subs'' \<in> set (contribution u d ?e)" by simp
  with embed_subs_entry(2) have "''--embed-subs'' \<in> set (concat (map (contribution u d) ydl_options))"
    unfolding set_concat set_map by blast
  with t show "''--embed-subs'' \<in> set toks" by simp
qed

theorem embed_subs_requirement_witness:
  "cfg_busy ''write_auto_subs'' = Some (PBool False) \<and> cfg_busy ''write_subs'' = Some (PBool True)
   \<and> cfg_busy ''embed_subs'' = Some (PBool True)
   \<and> check_requirements (ydl_options ! 22) cfg_busy = Inr True
   \<and> ''--embed-subs'' \<in> set [''--newline'', ''-R'', ''5'', ''--min-filesize'', ''10M'',
        ''--write-sub'', ''-o'', ''/home/user/%(title)s.%(ext)s'', ''--embed-subs'',
        ''--no-mtime'', ''-v'']"
proof -
  have a: "cfg_busy ''write_auto_subs'' = Some (PBool False)" by code_simp
  have b: "cfg_busy ''write_subs'' = Some (PBool True)" by code_simp
  have e: "cfg_busy ''embed_subs'' = Some (PBool True)" by code_simp
  have t: "truthy (PBool False) \<or> truthy (PBool True)" by simp
  from embed_subs_requirement [OF a b t, of utils_plain] e parse_cfg_busy a b
  show ?thesis by simp
qed

text \<open>
  C5. The claim leaves no token between \<open>--newline\<close> and the passthrough tokens when
  every schema option holds its default. The save path that \<open>_build_savepath\<close> joins
  from the empty default path and the file-name template is not the default \<open>''\<close>
  of the \<open>save_path\<close> entry, so \<open>parse\<close> emits \<open>-o\<close> and the path.
\<close>

theorem defaults_counterexample:
  "schema_defaults cfg_default \<and> cfg_default ''cmd_args'' = Some (PStr '''')
   \<and> parse utils_plain cfg_default = Inr [''--newline'', ''-o'', ''%(title)s.%(ext)s'']
   \<and> parse utils_plain cfg_default \<noteq> Inr (''--newline'' # py_split '''')"
  by code_simp

text \<open>
  C5, amended. When every schema option holds its default value, the token list
  \<open>parse\<close> returns is \<open>--newline\<close>, then \<open>-o\<close> and the save path built by
  \<open>_build_savepath\<close> unless that path is empty, then the tokens of \<open>cmd_args\<close>,
  and no other tokens; and \<open>parse\<close> does return a token list when the save-path
  step succeeds and \<open>cmd_args\<close> is a string.
\<close>

theorem parse_defaults:
  assumes sd: "schema_defaults cfg"
  shows "(\<forall>toks. parse u cfg = Inr toks \<longrightarrow>
            (\<exists>d p s. build_savepath u cfg = Inr d \<and> d ''save_path'' = Some (PStr p)
               \<and> cfg ''cmd_args'' = Some (PStr s)
               \<and> toks = ''--newline'' # (if p = [] then [] else [''-o'', to_string u (PStr p)])
                          @ py_split s))
       \<and> (\<forall>d s. build_savepath u cfg = Inr d \<and> cfg ''cmd_args'' = Some (PStr s) \<longrightarrow>
            (\<exists>toks. parse u cfg = Inr toks))"
proof (intro conjI allI impI)
  fix toks assume p: "parse u cfg = Inr toks"
  from parse_Inr [OF p] obtain d' s where d': "derive_options u cfg = Inr d'"
    and s: "d' ''cmd_args'' = Some (PStr s)"
    and t: "toks = ''--newline'' # concat (map (contribution u d') ydl_options) @ py_split s"
    by blast
  from d' obtain d where bs: "build_savepath u cfg = Inr d"
    by (auto simp: derive_options_def split: sum.splits)
  from derive_options_defaults [OF sd bs] d' obtain p
    where eq: "d' = d" and d: "d = cfg(''save_path'' \<mapsto> PStr p)" by auto
  from s eq d have "cfg ''cmd_args'' = Some (PStr s)" by simp
  moreover from d have "d ''save_path'' = Some (PStr p)" by simp
  moreover from t eq contributions_defaults [OF sd d, of u]
  have "toks = ''--newline'' # (if p = [] then [] else [''-o'', to_string u (PStr p)]) @ py_split s"
    by simp
  ultimately show "\<exists>d p s. build_savepath u cfg = Inr d \<and> d ''save_path'' = Some (PStr p)
               \<and> cfg ''cmd_args'' = Some (PStr s)
               \<and> toks = ''--newline'' # (if p = [] then [] else [''-o'', to_string u (PStr p)])
                          @ py_split s"
    using bs by blast
next
  fix d s assume a: "build_savepath u cfg = Inr d \<and> cfg ''cmd_args'' = Some (PStr s)"
  then have bs: "build_savepath u cfg = Inr d" and cmd: "cfg ''cmd_args'' = Some (PStr s)"
    by simp_all
  note dv = derive_options_defaults(1) [OF sd bs]
  have "\<exists>l. parse_options u d ydl_options [''--newline''] = Inr l"
  proof (rule parse_options_succeeds)
    fix opt assume "opt \<in> set ydl_options"
    with sd have "cfg (name opt) \<noteq> None" by (intro schema_defaults_bound) simp_all
    then show "d (name opt) \<noteq> None" by (simp add: derive_dom [OF dv])
  next
    fix opt reqs r assume "opt \<in> set ydl_options" "requirements opt = Some reqs" "r \<in> set reqs"
    with ydl_requirement_keys have "r \<in> {''write_auto_subs'', ''write_subs'', ''to_audio''}"
      by blast
    then have "r \<in> name ` set ydl_options"
      by (auto simp: ydl_options_def mk_option_def mk_option_req_def)
    with sd have "cfg r \<noteq> None" by (rule schema_defaults_bound)
    then show "d r \<noteq> None" by (simp add: derive_dom [OF dv])
  qed
  then obtain l where l: "parse_options u d ydl_options [''--newline''] = Inr l" ..
  have "d ''cmd_args'' = cfg ''cmd_args''"
    by (rule derive_same [OF dv]) (simp add: modified_keys_def)
  with cmd have "parse_cmd_args d l = Inr (l @ py_split s)" by (simp add: parse_cmd_args_def)
  with dv l show "\<exists>toks. parse u cfg = Inr toks" by (simp add: parse_unfold)
qed

theorem parse_defaults_witness:
  "schema_defaults cfg_default_args
   \<and> parse utils_plain cfg_default_args =
        Inr [''--newline'', ''-o'', ''%(title)s.%(ext)s'', ''--no-mtime'', ''-v'']
   \<and> (\<exists>d p s. build_savepath utils_plain cfg_default_args = Inr d
         \<and> d ''save_path'' = Some (PStr p) \<and> cfg_default_args ''cmd_args'' = Some (PStr s)
         \<and> [''--newline'', ''-o'', ''%(title)s.%(ext)s'', ''--no-mtime'', ''-v'']
             = ''--newline'' # (if p = [] then [] else [''-o'', to_string utils_plain (PStr p)])
                 @ py_split s)"
proof -
  have sd: "schema_defaults cfg_default_args" by code_simp
  have p: "parse utils_plain cfg_default_args =
        Inr [''--newline'', ''-o'', ''%(title)s.%(ext)s'', ''--no-mtime'', ''-v'']"
    by code_simp
  from parse_defaults [OF sd, of utils_plain] p sd show ?thesis by blast
qed

section \<open>The claim about gated entries\<close>

text \<open>
  C10. When the requirement check of a schema entry fails (the entry names requirements,
  all of them are bound and none is truthy), \<open>parse\<close> does not read the entry's own
  key: rebinding the key to any value, or removing it, leaves the result of \<open>parse\<close>
  unchanged. So a configuration that lacks \<open>audio_format\<close> while \<open>to_audio\<close> is
  false compiles to the tokens of the full configuration.
\<close>

theorem gated_key_not_read:
  assumes "opt \<in> set ydl_options" and "check_requirements opt cfg = Inr False"
  shows "parse u (cfg(name opt := x)) = parse u cfg"
proof -
  from assms(2) have req: "requirements opt \<noteq> None"
    by (auto simp: check_requirements_def split: option.splits)
  note g = ydl_gated [OF assms(1) req]
  let ?k = "name opt"
  have dv: "derive_options u (cfg(?k := x)) = upd_result ?k x (derive_options u cfg)"
    by (rule derive_options_upd) (rule g(1))
  show ?thesis
  proof (cases "derive_options u cfg")
    case (Inl e)
    with dv show ?thesis by (simp add: parse_unfold upd_result_def)
  next
    case (Inr d)
    have "parse_options u (d(?k := x)) ydl_options acc = parse_options u d ydl_options acc" for acc
    proof (rule parse_options_upd)
      fix o' reqs assume "o' \<in> set ydl_options" "requirements o' = Some reqs"
      then show "?k \<notin> set reqs" by (rule g(3))
    next
      fix o' assume o': "o' \<in> set ydl_options" "name o' = ?k"
      then have "o' = opt" by (rule g(4))
      with assms(2) check_requirements_derived [OF Inr assms(1)]
      show "check_requirements o' d = Inr False" by simp
    qed
    with dv Inr g(2) show ?thesis
      by (simp add: parse_unfold upd_result_def parse_cmd_args_upd split: sum.splits)
  qed
qed

theorem gated_key_not_read_witness:
  "ydl_options ! 24 \<in> set ydl_options \<and> name (ydl_options ! 24) = ''audio_format''
   \<and> check_requirements (ydl_options ! 24) cfg_busy = Inr False
   \<and> parse utils_plain (cfg_busy(''audio_format'' := None)) = parse utils_plain cfg_busy
   \<and> parse utils_plain (cfg_busy(''audio_format'' := None)) =
       Inr [''--newline'', ''-R'', ''5'', ''--min-filesize'', ''10M'', ''--write-sub'',
            ''-o'', ''/home/user/%(title)s.%(ext)s'', ''--embed-subs'', ''--no-mtime'', ''-v'']"
proof -
  have m: "ydl_options ! 24 \<in> set ydl_options" by (simp add: ydl_options_def)
  have n: "name (ydl_options ! 24) = ''audio_format''" by code_simp
  have c: "check_requirements (ydl_options ! 24) cfg_busy = Inr False" by code_simp
  from gated_key_not_read [OF m c, of utils_plain None] m n c parse_cfg_busy
  show ?thesis by simp
qed

section \<open>The claims about the download item\<close>

text \<open>
  C3. The claim ends the sequence of \<open>test_calc_post_proc_size\<close> in the stage
  Completed. The last status of the sequence, \<open>Post Processing\<close>, is one of the
  active statuses (the classification table of the spec, and \<open>test_set_stage\<close>): the
  item ends in the stage Active.
\<close>

theorem post_processing_not_completed:
  "map_sum id stage (update_all format_bytes test_item
      [report_webm, report_m4a, report_status_only]) = Inr Active
   \<and> map_sum id stage (update_all format_bytes test_item
      [report_webm, report_m4a, report_status_only]) \<noteq> Inr Completed"
  by code_simp

text \<open>
  C3, amended. From a fresh item, the report with extension \<open>.webm\<close> and size
  \<open>10.00MiB\<close>, then the report with extension \<open>.m4a\<close> and size \<open>3.45MiB\<close>, then
  a report with the status \<open>Post Processing\<close> and no size (the status alone, or the
  third report of the test) leave the recorded sizes
  \<open>[10485760.00, 3617587.20, 14103347.20]\<close>, the third the sum of the first two, and
  the stage Active. This holds for every \<open>format_bytes\<close>.
\<close>

theorem post_processing_sizes:
  "map_sum id (\<lambda>item. (filesizes item, stage item))
      (update_all fmt test_item [report_webm, report_m4a, report_status_only])
     = Inr ([10485760.00, 3617587.20, 14103347.20], Active)
   \<and> map_sum id (\<lambda>item. (filesizes item, stage item))
      (update_all fmt test_item [report_webm, report_m4a, report_post_processing])
     = Inr ([10485760.00, 3617587.20, 14103347.20], Active)
   \<and> (14103347.20 :: rat) = 10485760.00 + 3617587.20"
  by code_simp

text \<open>
  C4. \<open>reset\<close> on an item in the stage Active fails with \<open>IllegalReset\<close>; on an item
  in any other stage it returns the item in the stage Queued, with the path and the
  three sequences empty and the snapshot that construction from the item's URL and
  options gives.
\<close>

theorem reset_item:
  "(stage item = Active \<longrightarrow> reset item = Inl IllegalReset)
   \<and> (stage item \<noteq> Active \<longrightarrow>
        (\<exists>item'. reset item = Inr item' \<and> stage item' = Queued \<and> path item' = []
           \<and> filenames item' = [] \<and> extensions item' = [] \<and> filesizes item' = []
           \<and> progress_stats item' = progress_stats (init_item (url item) (options item))
           \<and> url item' = url item \<and> options item' = options item))"
  by (simp add: reset_def init_item_def)

theorem reset_item_witness:
  "stage active_item = Active \<and> reset active_item = Inl IllegalReset
   \<and> stage completed_item \<noteq> Active
   \<and> (\<exists>item'. reset completed_item = Inr item' \<and> stage item' = Queued \<and> path item' = []
           \<and> filenames item' = [] \<and> extensions item' = [] \<and> filesizes item' = []
           \<and> progress_stats item' = default_values ''url'')"
proof -
  have a: "stage active_item = Active" by code_simp
  have c: "stage completed_item \<noteq> Active" by code_simp
  have u: "progress_stats (init_item (url completed_item) (options completed_item))
             = default_values ''url''"
    by code_simp
  from reset_item [of active_item] reset_item [of completed_item] a c u show ?thesis by auto
qed


end
